theory Spec2Isabelle
  imports Complex_Main "HOL-Library.Char_ord" "HOL-Library.List_Lexorder" "HOL-Library.Option_ord"
begin

section \<open>Values, records and errors\<close>

text \<open>
  The program reads JSON from the STJ open-data catalogue, turns every JSON object into an
  \<open>Acordao\<close>, and keeps the records in a local SQLite database with an FTS5 index.

  A decoded JSON value is a Python value. The model has \<open>None\<close>, strings, lists and
  dictionaries (an association list, looked up with \<open>map_of\<close>); numbers and booleans are
  left out. A character of a \<open>string\<close> stands for one character of the text.
\<close>

datatype pyval =
    PNone
  | PStr string
  | PList "pyval list"
  | PDict "(string \<times> pyval) list"

type_synonym pydict = "(string \<times> pyval) list"

text \<open>
  The exceptions the modelled code can raise, by their Python class. \<open>TooManyRedirects\<close>
  stands for every exception of a request that is neither an \<open>HTTPStatusError\<close> nor a
  \<open>TransportError\<close>.
\<close>

datatype exn =
    KeyError
  | HTTPStatusError
  | TransportError
  | TooManyRedirects
  | JSONDecodeError
  | BadZipFile
  | FileNotFoundError
  | AttributeError
  | ProgrammingError
  | OperationalError
  | IntegrityError
  | OverflowError
  | TypeError
  | SystemExit nat

text \<open>
  \<open>models.py\<close>, the dataclass \<open>Acordao\<close>. The identifier is the result of \<open>str(...)\<close>;
  every other field holds what \<open>from_json\<close> put there.
\<close>

record acordao =
  acordao_id :: string
  numero_documento :: pyval
  numero_processo :: pyval
  numero_registro :: pyval
  sigla_classe :: pyval
  descricao_classe :: pyval
  classe_padronizada :: pyval
  orgao_julgador :: pyval
  ministro_relator :: pyval
  data_publicacao :: pyval
  ementa :: pyval
  tipo_decisao :: pyval
  data_decisao :: pyval
  decisao :: pyval
  jurisprudencia_citada :: pyval
  notas :: pyval
  informacoes_complementares :: pyval
  termos_auxiliares :: pyval
  tese_juridica :: pyval
  tema :: pyval
  referencias_legislativas :: pyval
  acordaos_similares :: pyval

text \<open>\<open>dataclasses.astuple\<close>: the fields in declaration order.\<close>

definition astuple :: "acordao \<Rightarrow> pyval list" where
  "astuple r =
     [PStr (acordao_id r), numero_documento r, numero_processo r, numero_registro r,
      sigla_classe r, descricao_classe r, classe_padronizada r, orgao_julgador r,
      ministro_relator r, data_publicacao r, ementa r, tipo_decisao r, data_decisao r,
      decisao r, jurisprudencia_citada r, notas r, informacoes_complementares r,
      termos_auxiliares r, tese_juridica r, tema r, referencias_legislativas r,
      acordaos_similares r]"

section \<open>The store\<close>

text \<open>
  \<open>db.py\<close>. The state of the program is the database as the one connection sees it, the
  working directory \<open>data/\<close>, and the log of the HTTP requests sent so far. What the
  connection has written it also reads, committed or not; \<open>commit\<close> is not modelled. The
  triggers of the schema keep the FTS5 index in step with the table, and the index is not
  a part of the state: the engine is asked with the table.

  \<^item> \<open>tables\<close>: whether the schema has been created. \<open>get_connection\<close> opens the
    database file and creates no table; \<open>init_db\<close> does.
  \<^item> \<open>acordaos\<close>: the table \<open>acordaos\<close> in rowid order; \<open>id TEXT PRIMARY KEY\<close>.
  \<^item> \<open>sync_state\<close>: the table \<open>sync_state\<close>, rows \<open>(dataset, resource_id, resource_name)\<close>
    with primary key \<open>(dataset, resource_id)\<close>; the key columns are \<open>TEXT NOT NULL\<close>, the
    name may be NULL.
\<close>

datatype body =
    Listing "pydict list"
  | Records "pydict list"
  | Archive "(string \<times> body) list"
  | Garbage

datatype request = PackageShow string | Get string

record sys =
  tables :: bool
  acordaos :: "acordao list"
  sync_state :: "(string \<times> string \<times> pyval) list"
  files :: "string \<Rightarrow> body option"
  requests :: "request list"

text \<open>
  \<open>INSERT OR REPLACE INTO acordaos\<close>: a row with the same primary key is deleted, the new
  row gets a fresh rowid, past every existing one.
\<close>

definition insert_or_replace :: "acordao list \<Rightarrow> acordao \<Rightarrow> acordao list" where
  "insert_or_replace tbl r = filter (\<lambda>x. acordao_id x \<noteq> acordao_id r) tbl @ [r]"

text \<open>
  sqlite3 binds \<open>None\<close> as NULL and a \<open>str\<close> as TEXT; a list or a dictionary is refused with
  \<open>ProgrammingError\<close> when its row is reached.
\<close>

fun bindable :: "pyval \<Rightarrow> bool" where
  "bindable PNone = True"
| "bindable (PStr s) = True"
| "bindable (PList xs) = False"
| "bindable (PDict kvs) = False"

text \<open>
  \<open>conn.executemany(sql, rows)\<close>: the rows are written one after the other; a row that
  cannot be bound raises, and the rows written before it stay in the open transaction.
\<close>

fun executemany :: "acordao list \<Rightarrow> acordao list \<Rightarrow> acordao list \<times> (exn + unit)" where
  "executemany tbl [] = (tbl, Inr ())"
| "executemany tbl (r # rs) =
     (if list_all bindable (astuple r) then executemany (insert_or_replace tbl r) rs
      else (tbl, Inl ProgrammingError))"

definition upsert_acordaos :: "sys \<Rightarrow> acordao list \<Rightarrow> sys \<times> (exn + nat)" where
  "upsert_acordaos conn records =
     (if records = [] then (conn, Inr 0)
      else case executemany (acordaos conn) records of
             (tbl, Inl e) \<Rightarrow> (conn\<lparr>acordaos := tbl\<rparr>, Inl e)
           | (tbl, Inr u) \<Rightarrow> (conn\<lparr>acordaos := tbl\<rparr>, Inr (length records)))"

text \<open>\<open>SELECT * FROM acordaos WHERE id = ?\<close>, \<open>fetchone()\<close>.\<close>

definition get_by_id :: "sys \<Rightarrow> string \<Rightarrow> acordao option" where
  "get_by_id conn record_id = find (\<lambda>a. acordao_id a = record_id) (acordaos conn)"


text \<open>
  \<open>mark_synced\<close>: \<open>INSERT OR REPLACE\<close> on the key \<open>(dataset, resource_id)\<close>. The values come
  from the listing of the catalogue as they are: one that sqlite3 cannot bind raises
  \<open>ProgrammingError\<close>, and an identifier that is \<open>None\<close> violates \<open>NOT NULL\<close>.
\<close>

definition mark_synced :: "sys \<Rightarrow> string \<Rightarrow> pyval \<Rightarrow> pyval \<Rightarrow> sys \<times> (exn + unit)" where
  "mark_synced conn dataset resource_id resource_name =
     (if \<not> (bindable resource_id \<and> bindable resource_name) then (conn, Inl ProgrammingError)
      else case resource_id of
             PStr rid \<Rightarrow>
               (conn\<lparr>sync_state :=
                  filter (\<lambda>(d, r, n). \<not> (d = dataset \<and> r = rid)) (sync_state conn)
                    @ [(dataset, rid, resource_name)]\<rparr>, Inr ())
           | _ \<Rightarrow> (conn, Inl IntegrityError))"

text \<open>
  \<open>is_synced\<close>: a lookup of the key. \<open>resource_id = NULL\<close> holds of no row; a list or a
  dictionary cannot be bound.
\<close>

definition is_synced :: "sys \<Rightarrow> string \<Rightarrow> pyval \<Rightarrow> exn + bool" where
  "is_synced conn dataset resource_id =
     (case resource_id of
        PStr rid \<Rightarrow> Inr (list_ex (\<lambda>(d, r, n). d = dataset \<and> r = rid) (sync_state conn))
      | PNone \<Rightarrow> Inr False
      | _ \<Rightarrow> Inl ProgrammingError)"

text \<open>
  \<open>clear_sync_state\<close>: the deletion of one dataset's markers or, when \<open>dataset\<close> is \<open>None\<close>
  or empty, of all of them. The command \<open>sync\<close> calls it before \<open>init_db\<close> has run: on a
  database that has no table \<open>sync_state\<close> yet, the \<open>DELETE\<close> raises \<open>OperationalError\<close>
  (no such table). Every other statement of the program runs after \<open>init_db\<close> (in
  \<open>sync_all\<close>, \<open>busca\<close>, \<open>ver\<close> and \<open>info\<close>), so this is the one place that reads \<open>tables\<close>.
\<close>

definition clear_sync_state :: "sys \<Rightarrow> string option \<Rightarrow> sys \<times> (exn + unit)" where
  "clear_sync_state conn dataset =
     (if \<not> tables conn then (conn, Inl OperationalError)
      else case dataset of
             Some d \<Rightarrow>
               if d \<noteq> []
               then (conn\<lparr>sync_state := filter (\<lambda>(d', r, n). d' \<noteq> d) (sync_state conn)\<rparr>, Inr ())
               else (conn\<lparr>sync_state := []\<rparr>, Inr ())
           | None \<Rightarrow> (conn\<lparr>sync_state := []\<rparr>, Inr ()))"

text \<open>
  \<open>init_db\<close> runs \<open>CREATE ... IF NOT EXISTS\<close> and adds the columns an older database lacks:
  afterwards the tables exist, and what they held is kept.
\<close>

definition init_db :: "sys \<Rightarrow> sys" where
  "init_db conn = conn\<lparr>tables := True\<rparr>"

section \<open>The outside world\<close>

text \<open>
  What the program does not decide: the answer of the catalogue to the \<open>n\<close>-th HTTP request
  of the run, Python's \<open>repr\<close> and \<open>json.dumps\<close>, and the FTS5 engine, which for a query
  and a table either rejects the query or gives every matching row its \<open>bm25\<close> score. An
  answer is a response with its body, an error status (\<open>raise_for_status\<close>), a transport
  error, or another exception of the request.
\<close>

datatype outcome = Response body | StatusError | TransportErr | OtherError

record world =
  http :: "nat \<Rightarrow> request \<Rightarrow> outcome"
  repr :: "pyval \<Rightarrow> string"
  dumps :: "pyval list \<Rightarrow> string"
  fts5 :: "string \<Rightarrow> acordao list \<Rightarrow> exn + (acordao \<Rightarrow> real option)"

section \<open>Normalising a raw record\<close>

definition dict_get :: "pydict \<Rightarrow> string \<Rightarrow> pyval \<Rightarrow> pyval" where
  "dict_get d k dflt = (case map_of d k of None \<Rightarrow> dflt | Some v \<Rightarrow> v)"

fun truthy :: "pyval \<Rightarrow> bool" where
  "truthy PNone = False"
| "truthy (PStr s) = (s \<noteq> [])"
| "truthy (PList xs) = (xs \<noteq> [])"
| "truthy (PDict kvs) = (kvs \<noteq> [])"

definition py_or :: "pyval \<Rightarrow> pyval \<Rightarrow> pyval" where
  "py_or a b = (if truthy a then a else b)"

definition py_str :: "world \<Rightarrow> pyval \<Rightarrow> string" where
  "py_str W v = (case v of PStr s \<Rightarrow> s | PNone \<Rightarrow> ''None'' | _ \<Rightarrow> repr W v)"

text \<open>
  The two list-valued fields: a list becomes its JSON text, or the empty string when it is
  empty; anything else is kept.
\<close>

definition serialise :: "world \<Rightarrow> pyval \<Rightarrow> pyval" where
  "serialise W v =
     (case v of PList xs \<Rightarrow> (if xs \<noteq> [] then PStr (dumps W xs) else PStr []) | _ \<Rightarrow> v)"

definition from_json :: "world \<Rightarrow> pydict \<Rightarrow> exn + acordao" where
  "from_json W data =
     (let refs = serialise W (dict_get data ''referenciasLegislativas'' PNone);
          similares = serialise W (dict_get data ''acordaosSimilares'' PNone)
      in case map_of data ''id'' of
           None \<Rightarrow> Inl KeyError
         | Some v \<Rightarrow> Inr \<lparr>
             acordao_id = py_str W v,
             numero_documento = dict_get data ''numeroDocumento'' PNone,
             numero_processo = dict_get data ''numeroProcesso'' (PStr []),
             numero_registro = dict_get data ''numeroRegistro'' (PStr []),
             sigla_classe = dict_get data ''siglaClasse'' (PStr []),
             descricao_classe = dict_get data ''descricaoClasse'' (PStr []),
             classe_padronizada = dict_get data ''classePadronizada'' PNone,
             orgao_julgador = dict_get data ''nomeOrgaoJulgador'' (PStr []),
             ministro_relator = dict_get data ''ministroRelator'' (PStr []),
             data_publicacao = dict_get data ''dataPublicacao'' (PStr []),
             ementa = dict_get data ''ementa'' (PStr []),
             tipo_decisao = dict_get data ''tipoDeDecisao'' (PStr []),
             data_decisao = dict_get data ''dataDecisao'' (PStr []),
             decisao = dict_get data ''decisao'' (PStr []),
             jurisprudencia_citada = dict_get data ''jurisprudenciaCitada'' PNone,
             notas = dict_get data ''notas'' PNone,
             informacoes_complementares = dict_get data ''informacoesComplementares'' PNone,
             termos_auxiliares = dict_get data ''termosAuxiliares'' PNone,
             tese_juridica = dict_get data ''teseJuridica'' PNone,
             tema = dict_get data ''tema'' PNone,
             referencias_legislativas = py_or refs (PStr []),
             acordaos_similares = py_or similares (PStr []) \<rparr>)"

text \<open>
  \<open>[Acordao.from_json(r) for r in raw]\<close>: the first record that fails ends the comprehension
  with its exception.
\<close>

fun normalize :: "world \<Rightarrow> pydict list \<Rightarrow> exn + acordao list" where
  "normalize W [] = Inr []"
| "normalize W (r # raw) =
     (case from_json W r of
        Inl e \<Rightarrow> Inl e
      | Inr a \<Rightarrow> (case normalize W raw of Inl e \<Rightarrow> Inl e | Inr as \<Rightarrow> Inr (a # as)))"

section \<open>The catalogue client\<close>

text \<open>
  \<open>config.py\<close> and \<open>client.py\<close>. A resource of a listing is a JSON object, a dictionary in
  which the program looks for the keys \<open>id\<close>, \<open>name\<close>, \<open>format\<close> and \<open>url\<close>; the values are
  what the catalogue sent. The body of an answer is what the program can take from it: a
  listing, a JSON array of records, a ZIP archive with its members, or anything else.
\<close>

type_synonym resource = pydict

definition DATASETS :: "string list" where
  "DATASETS =
     [''espelhos-de-acordaos-corte-especial'',
      ''espelhos-de-acordaos-primeira-secao'',
      ''espelhos-de-acordaos-primeira-turma'',
      ''espelhos-de-acordaos-quarta-turma'',
      ''espelhos-de-acordaos-quinta-turma'',
      ''espelhos-de-acordaos-segunda-secao'',
      ''espelhos-de-acordaos-segunda-turma'',
      ''espelhos-de-acordaos-sexta-turma'',
      ''espelhos-de-acordaos-terceira-secao'',
      ''espelhos-de-acordaos-terceira-turma'']"

definition DATA_DIR :: string where
  "DATA_DIR = ''data''"

definition MAX_RETRIES :: nat where
  "MAX_RETRIES = 3"

text \<open>
  \<open>_request_with_retry\<close>: \<open>for attempt in range(MAX_RETRIES)\<close>, with \<open>left\<close> the attempts
  not yet made, so that \<open>attempt < MAX_RETRIES - 1\<close> reads \<open>0 < left\<close> after this one. Every
  attempt is one request, answered by the world at its position in the log. The waiting
  between attempts is not modelled. The loop cannot end without a return or a raise; the
  equation for no attempt is \<open>None.json()\<close>.
\<close>

fun attempts :: "world \<Rightarrow> request \<Rightarrow> nat \<Rightarrow> sys \<Rightarrow> sys \<times> (exn + body)" where
  "attempts W rq 0 conn = (conn, Inl AttributeError)"
| "attempts W rq (Suc left) conn =
     (let conn' = conn\<lparr>requests := requests conn @ [rq]\<rparr>
      in case http W (length (requests conn)) rq of
           Response b \<Rightarrow> (conn', Inr b)
         | StatusError \<Rightarrow>
             if 0 < left then attempts W rq left conn' else (conn', Inl HTTPStatusError)
         | TransportErr \<Rightarrow>
             if 0 < left then attempts W rq left conn' else (conn', Inl TransportError)
         | OtherError \<Rightarrow> (conn', Inl TooManyRedirects))"

definition request_with_retry :: "world \<Rightarrow> request \<Rightarrow> sys \<Rightarrow> sys \<times> (exn + body)" where
  "request_with_retry W rq conn = attempts W rq MAX_RETRIES conn"

text \<open>\<open>resp.json()["result"]["resources"]\<close> raises on an answer that is no listing.\<close>

definition get_dataset_resources :: "world \<Rightarrow> string \<Rightarrow> sys \<Rightarrow> sys \<times> (exn + resource list)" where
  "get_dataset_resources W dataset conn =
     (case request_with_retry W (PackageShow dataset) conn of
        (conn', Inl e) \<Rightarrow> (conn', Inl e)
      | (conn', Inr (Listing rs)) \<Rightarrow> (conn', Inr rs)
      | (conn', Inr b) \<Rightarrow> (conn', Inl JSONDecodeError))"

text \<open>\<open>str.upper\<close> on the letters \<open>a\<close> to \<open>z\<close>; every other character is kept.\<close>

definition upper_char :: "char \<Rightarrow> char" where
  "upper_char c =
     (case map_of (zip ''abcdefghijklmnopqrstuvwxyz'' ''ABCDEFGHIJKLMNOPQRSTUVWXYZ'') c of
        Some u \<Rightarrow> u
      | None \<Rightarrow> c)"

definition upper :: "string \<Rightarrow> string" where
  "upper s = map upper_char s"

definition startswith :: "string \<Rightarrow> string \<Rightarrow> bool" where
  "startswith s p = (take (length p) s = p)"

definition endswith :: "string \<Rightarrow> string \<Rightarrow> bool" where
  "endswith s p = (length p \<le> length s \<and> drop (length s - length p) s = p)"

text \<open>
  \<open>v.upper()\<close> and \<open>v.startswith(p)\<close> on a value of a resource: a value that is no string
  has neither method.
\<close>

definition py_upper :: "pyval \<Rightarrow> exn + string" where
  "py_upper v = (case v of PStr s \<Rightarrow> Inr (upper s) | _ \<Rightarrow> Inl AttributeError)"

definition py_startswith :: "pyval \<Rightarrow> string \<Rightarrow> exn + bool" where
  "py_startswith v p = (case v of PStr s \<Rightarrow> Inr (startswith s p) | _ \<Rightarrow> Inl AttributeError)"

text \<open>
  The condition of the comprehension of \<open>filter_data_resources\<close>; \<open>and\<close> evaluates its
  second operand only when the first holds.
\<close>

definition is_data_resource :: "resource \<Rightarrow> exn + bool" where
  "is_data_resource r =
     (case py_upper (dict_get r ''format'' (PStr [])) of
        Inl e \<Rightarrow> Inl e
      | Inr fmt \<Rightarrow>
          if fmt \<in> set [''JSON'', ''ZIP'']
          then (case py_startswith (dict_get r ''name'' (PStr [])) ''dicionario'' of
                  Inl e \<Rightarrow> Inl e
                | Inr b \<Rightarrow> Inr (\<not> b))
          else Inr False)"

fun filter_data_resources :: "resource list \<Rightarrow> exn + resource list" where
  "filter_data_resources [] = Inr []"
| "filter_data_resources (r # resources) =
     (case is_data_resource r of
        Inl e \<Rightarrow> Inl e
      | Inr keep \<Rightarrow>
          (case filter_data_resources resources of
             Inl e \<Rightarrow> Inl e
           | Inr rest \<Rightarrow> Inr (if keep then r # rest else rest)))"

text \<open>
  \<open>download_json\<close>: an answer that is not a JSON array of objects fails, in \<open>resp.json()\<close> or
  in the normalisation right after it.
\<close>

definition download_json :: "world \<Rightarrow> string \<Rightarrow> sys \<Rightarrow> sys \<times> (exn + pydict list)" where
  "download_json W url conn =
     (case request_with_retry W (Get url) conn of
        (conn', Inl e) \<Rightarrow> (conn', Inl e)
      | (conn', Inr (Records raw)) \<Rightarrow> (conn', Inr raw)
      | (conn', Inr b) \<Rightarrow> (conn', Inl JSONDecodeError))"

text \<open>
  \<open>download_and_extract_zip\<close>. Its own loop of attempts writes the answer to
  \<open>data/<dataset>/archive.zip\<close> and leaves the loop; an attempt that fails writes nothing in
  the model. Then every member whose name ends in \<open>.json\<close> is extracted to
  \<open>data/<dataset>/<name>\<close>, and the archive is deleted. An answer that is no archive makes
  \<open>ZipFile\<close> raise, with the file still there. With no attempt at all the loop would end
  and leave the archive to be opened as it is.
\<close>

fun stream_attempts :: "world \<Rightarrow> string \<Rightarrow> string \<Rightarrow> nat \<Rightarrow> sys \<Rightarrow> sys \<times> (exn + unit)" where
  "stream_attempts W url zip_path 0 conn = (conn, Inr ())"
| "stream_attempts W url zip_path (Suc left) conn =
     (let conn' = conn\<lparr>requests := requests conn @ [Get url]\<rparr>
      in case http W (length (requests conn)) (Get url) of
           Response b \<Rightarrow> (conn'\<lparr>files := (files conn')(zip_path \<mapsto> b)\<rparr>, Inr ())
         | StatusError \<Rightarrow>
             if 0 < left then stream_attempts W url zip_path left conn'
             else (conn', Inl HTTPStatusError)
         | TransportErr \<Rightarrow>
             if 0 < left then stream_attempts W url zip_path left conn'
             else (conn', Inl TransportError)
         | OtherError \<Rightarrow> (conn', Inl TooManyRedirects))"

definition zf_extract :: "string \<Rightarrow> (string \<Rightarrow> body option) \<Rightarrow> string \<times> body \<Rightarrow> (string \<Rightarrow> body option)" where
  "zf_extract dest_dir fs member = fs(dest_dir @ ''/'' @ fst member \<mapsto> snd member)"

definition download_and_extract_zip ::
  "world \<Rightarrow> string \<Rightarrow> string \<Rightarrow> sys \<Rightarrow> sys \<times> (exn + string list)" where
  "download_and_extract_zip W url dataset conn =
     (let dest_dir = DATA_DIR @ ''/'' @ dataset;
          zip_path = dest_dir @ ''/archive.zip''
      in case stream_attempts W url zip_path MAX_RETRIES conn of
           (c1, Inl e) \<Rightarrow> (c1, Inl e)
         | (c1, Inr u) \<Rightarrow>
             (case files c1 zip_path of
                None \<Rightarrow> (c1, Inl FileNotFoundError)
              | Some (Archive members) \<Rightarrow>
                  (let js = filter (\<lambda>m. endswith (fst m) ''.json'') members;
                       c2 = c1\<lparr>files := foldl (zf_extract dest_dir) (files c1) js\<rparr>;
                       c3 = c2\<lparr>files := (files c2)(zip_path := None)\<rparr>
                   in (c3, Inr (map (\<lambda>m. dest_dir @ ''/'' @ fst m) js)))
              | Some b \<Rightarrow> (c1, Inl BadZipFile)))"

text \<open>\<open>parse_json_file\<close>: \<open>open\<close> and \<open>json.load\<close>.\<close>

definition parse_json_file :: "sys \<Rightarrow> string \<Rightarrow> exn + pydict list" where
  "parse_json_file conn path =
     (case files conn path of
        None \<Rightarrow> Inl FileNotFoundError
      | Some (Records raw) \<Rightarrow> Inr raw
      | Some b \<Rightarrow> Inl JSONDecodeError)"

text \<open>\<open>json_file.unlink(missing_ok=True)\<close>.\<close>

definition unlink :: "sys \<Rightarrow> string \<Rightarrow> sys" where
  "unlink conn path = conn\<lparr>files := (files conn)(path := None)\<rparr>"

section \<open>The sync engine\<close>

text \<open>
  \<open>sync.py\<close>. What is printed and the progress bar are left out. \<open>total_upserted\<close> is the local
  variable of that name, \<open>total_records\<close> the \<open>total\<close> of \<open>sync_all\<close>.

  The loop over the extracted files of a ZIP resource: parse, normalise, upsert, add to the
  count, delete the file. An exception leaves the loop where it is raised.
\<close>

fun consume_files :: "world \<Rightarrow> string list \<Rightarrow> sys \<Rightarrow> nat \<Rightarrow> sys \<times> nat \<times> (exn + unit)" where
  "consume_files W [] conn total_upserted = (conn, total_upserted, Inr ())"
| "consume_files W (json_file # rest) conn total_upserted =
     (case parse_json_file conn json_file of
        Inl e \<Rightarrow> (conn, total_upserted, Inl e)
      | Inr raw \<Rightarrow>
          (case normalize W raw of
             Inl e \<Rightarrow> (conn, total_upserted, Inl e)
           | Inr records \<Rightarrow>
               (case upsert_acordaos conn records of
                  (c1, Inl e) \<Rightarrow> (c1, total_upserted, Inl e)
                | (c1, Inr count) \<Rightarrow>
                    consume_files W rest (unlink c1 json_file) (total_upserted + count))))"

text \<open>
  The body of the \<open>try\<close> statement, for one resource. A URL that is no string is refused by
  \<open>httpx\<close> with \<open>TypeError\<close> before anything is sent.
\<close>

definition try_body ::
  "world \<Rightarrow> string \<Rightarrow> pyval \<Rightarrow> pyval \<Rightarrow> string \<Rightarrow> pyval \<Rightarrow> sys \<Rightarrow> nat
     \<Rightarrow> sys \<times> nat \<times> (exn + unit)" where
  "try_body W dataset res_id res_name res_format res_url conn total_upserted =
     (case res_url of
        PStr url \<Rightarrow>
          if res_format = ''ZIP'' then
            (case download_and_extract_zip W url dataset conn of
               (c1, Inl e) \<Rightarrow> (c1, total_upserted, Inl e)
             | (c1, Inr json_files) \<Rightarrow>
                 (case consume_files W json_files c1 total_upserted of
                    (c2, t2, Inl e) \<Rightarrow> (c2, t2, Inl e)
                  | (c2, t2, Inr u) \<Rightarrow>
                      (case mark_synced c2 dataset res_id res_name of
                         (c3, r) \<Rightarrow> (c3, t2, r))))
          else
            (case download_json W url conn of
               (c1, Inl e) \<Rightarrow> (c1, total_upserted, Inl e)
             | (c1, Inr raw) \<Rightarrow>
                 (case normalize W raw of
                    Inl e \<Rightarrow> (c1, total_upserted, Inl e)
                  | Inr records \<Rightarrow>
                      (case upsert_acordaos c1 records of
                         (c2, Inl e) \<Rightarrow> (c2, total_upserted, Inl e)
                       | (c2, Inr count) \<Rightarrow>
                           (case mark_synced c2 dataset res_id res_name of
                              (c3, r) \<Rightarrow> (c3, total_upserted + count, r)))))
      | _ \<Rightarrow> (conn, total_upserted, Inl TypeError))"

text \<open>
  \<open>for res in data_resources\<close>. \<open>res["id"]\<close>, \<open>res.get("format", "").upper()\<close>, \<open>res["url"]\<close>
  and \<open>not force and db.is_synced(...)\<close> are evaluated before the \<open>try\<close>: what they raise
  leaves the loop. \<open>except Exception\<close> prints the exception of the body and the loop goes
  on.
\<close>

fun sync_resources ::
  "world \<Rightarrow> string \<Rightarrow> bool \<Rightarrow> resource list \<Rightarrow> sys \<Rightarrow> nat \<Rightarrow> sys \<times> (exn + nat)" where
  "sync_resources W dataset force [] conn total_upserted = (conn, Inr total_upserted)"
| "sync_resources W dataset force (res # rest) conn total_upserted =
     (case map_of res ''id'' of
        None \<Rightarrow> (conn, Inl KeyError)
      | Some res_id \<Rightarrow>
          (let res_name = dict_get res ''name'' (PStr [])
           in case py_upper (dict_get res ''format'' (PStr [])) of
                Inl e \<Rightarrow> (conn, Inl e)
              | Inr res_format \<Rightarrow>
                  (case map_of res ''url'' of
                     None \<Rightarrow> (conn, Inl KeyError)
                   | Some res_url \<Rightarrow>
                       (case (if force then Inr False else is_synced conn dataset res_id) of
                          Inl e \<Rightarrow> (conn, Inl e)
                        | Inr synced \<Rightarrow>
                            if synced then sync_resources W dataset force rest conn total_upserted
                            else (case try_body W dataset res_id res_name res_format res_url
                                         conn total_upserted of
                                    (c', total_upserted', r) \<Rightarrow>
                                      sync_resources W dataset force rest c' total_upserted')))))"

definition sync_dataset :: "world \<Rightarrow> sys \<Rightarrow> string \<Rightarrow> bool \<Rightarrow> sys \<times> (exn + nat)" where
  "sync_dataset W conn dataset force =
     (case get_dataset_resources W dataset conn of
        (c1, Inl e) \<Rightarrow> (c1, Inl e)
      | (c1, Inr resources) \<Rightarrow>
          (case filter_data_resources resources of
             Inl e \<Rightarrow> (c1, Inl e)
           | Inr data_resources \<Rightarrow>
               if data_resources = [] then (c1, Inr 0)
               else sync_resources W dataset force data_resources c1 0))"

text \<open>\<open>for ds in datasets\<close> of \<open>sync_all\<close>: no \<open>try\<close> around \<open>sync_dataset\<close>.\<close>

fun sync_datasets :: "world \<Rightarrow> bool \<Rightarrow> string list \<Rightarrow> sys \<Rightarrow> nat \<Rightarrow> sys \<times> (exn + nat)" where
  "sync_datasets W force [] conn total_records = (conn, Inr total_records)"
| "sync_datasets W force (ds # rest) conn total_records =
     (case sync_dataset W conn ds force of
        (c1, Inl e) \<Rightarrow> (c1, Inl e)
      | (c1, Inr count) \<Rightarrow> sync_datasets W force rest c1 (total_records + count))"

definition sync_all :: "world \<Rightarrow> sys \<Rightarrow> string option \<Rightarrow> bool \<Rightarrow> sys \<times> (exn + nat)" where
  "sync_all W conn dataset_filter force =
     (let c0 = init_db conn;
          datasets = (case dataset_filter of
                        Some d \<Rightarrow> if d \<noteq> [] then [d] else DATASETS
                      | None \<Rightarrow> DATASETS)
      in sync_datasets W force datasets c0 0)"

text \<open>
  \<open>cli.py\<close>, the command \<open>sync\<close>, on the connection that \<open>get_connection\<close> opened: an
  unknown dataset name ends with \<open>SystemExit(1)\<close>; with \<open>--force\<close> the markers of the scope
  are deleted before \<open>sync_all\<close>, and so before \<open>init_db\<close>, runs, and what the deletion
  raises leaves the command.
\<close>

definition sync :: "world \<Rightarrow> sys \<Rightarrow> string option \<Rightarrow> bool \<Rightarrow> sys \<times> (exn + unit)" where
  "sync W conn dataset force =
     (if (case dataset of Some d \<Rightarrow> d \<noteq> [] \<and> d \<notin> set DATASETS | None \<Rightarrow> False)
      then (conn, Inl (SystemExit 1))
      else (case (if force then clear_sync_state conn dataset else (conn, Inr ())) of
              (c1, Inl e) \<Rightarrow> (c1, Inl e)
            | (c1, Inr u) \<Rightarrow>
                (case sync_all W c1 dataset force of
                   (c2, Inl e) \<Rightarrow> (c2, Inl e)
                 | (c2, Inr total_records) \<Rightarrow> (c2, Inr ()))))"

section \<open>The query layer\<close>

text \<open>
  \<open>db.py\<close>, \<open>_build_filters\<close>, \<open>search\<close> and \<open>search_stats\<close>. The program writes its queries
  as SQL text with \<open>?\<close> placeholders; the model keeps every fragment as a term and gives it
  the meaning SQLite gives the text.

  A filter clause is \<open>a.<column> LIKE ?\<close> or \<open>a.<column> >= ?\<close>; the clauses are joined with
  \<open>AND\<close> and take their parameters in order.
\<close>

datatype column = Ministro_relator | Sigla_classe | Data_decisao

datatype clause = LIKE column | GE column

definition given :: "string option \<Rightarrow> bool" where
  "given v = (case v of None \<Rightarrow> False | Some s \<Rightarrow> s \<noteq> [])"

definition build_filters ::
  "string option \<Rightarrow> string option \<Rightarrow> string option \<Rightarrow> clause list \<times> string list" where
  "build_filters ministro classe desde =
     ((if given ministro then [LIKE Ministro_relator] else [])
        @ (if given classe then [LIKE Sigla_classe] else [])
        @ (if given desde then [GE Data_decisao] else []),
      (if given ministro then [''%'' @ the ministro @ ''%''] else [])
        @ (if given classe then [''%'' @ the classe @ ''%''] else [])
        @ (if given desde then [the desde] else []))"

text \<open>
  The value of a column: NULL is \<open>None\<close>. The operator \<open>LIKE\<close> of SQLite: \<open>%\<close> stands for
  any run of characters, \<open>_\<close> for any one character, and the letters \<open>a\<close> to \<open>z\<close> match
  their capitals (\<open>PRAGMA case_sensitive_like\<close> is never set). \<open>>=\<close> on TEXT compares the
  strings character by character. A comparison with NULL is not true.
\<close>

fun sql_text :: "pyval \<Rightarrow> string option" where
  "sql_text (PStr s) = Some s"
| "sql_text v = None"

fun like :: "string \<Rightarrow> string \<Rightarrow> bool" where
  "like [] [] = True"
| "like [] (c # cs) = False"
| "like (p # ps) [] = (p = CHR ''%'' \<and> like ps [])"
| "like (p # ps) (c # cs) =
     (if p = CHR ''%'' then like ps (c # cs) \<or> like (p # ps) cs
      else (p = CHR ''_'' \<or> upper_char p = upper_char c) \<and> like ps cs)"

fun column_of :: "column \<Rightarrow> acordao \<Rightarrow> string option" where
  "column_of Ministro_relator a = sql_text (ministro_relator a)"
| "column_of Sigla_classe a = sql_text (sigla_classe a)"
| "column_of Data_decisao a = sql_text (data_decisao a)"

fun holds :: "acordao \<Rightarrow> clause \<times> string \<Rightarrow> bool" where
  "holds a (LIKE col, param) = (case column_of col a of None \<Rightarrow> False | Some t \<Rightarrow> like param t)"
| "holds a (GE col, param) = (case column_of col a of None \<Rightarrow> False | Some t \<Rightarrow> param \<le> t)"

text \<open>
  \<open>acordaos_fts MATCH ?\<close> joined with the table on the rowid. FTS5 parses the operand when
  the statement starts; the empty string holds no expression and is refused
  (\<open>fts5: syntax error near ""\<close>). Every other query is the engine's to judge.
\<close>

definition fts_match :: "world \<Rightarrow> string \<Rightarrow> acordao list \<Rightarrow> exn + (acordao \<Rightarrow> real option)" where
  "fts_match W query tbl = (if query = [] then Inl OperationalError else fts5 W query tbl)"

text \<open>
  \<open>FROM acordaos_fts f JOIN acordaos a ... WHERE acordaos_fts MATCH ? AND ...\<close>: the rows
  that match, each with its \<open>bm25\<close> score, on which every filter clause holds.
\<close>

definition selected ::
  "(acordao \<Rightarrow> real option) \<Rightarrow> (clause \<times> string) list \<Rightarrow> acordao list \<Rightarrow> (acordao \<times> real) list" where
  "selected score conds tbl =
     List.map_filter
       (\<lambda>a. case score a of
               None \<Rightarrow> None
             | Some rank \<Rightarrow> if list_all (holds a) conds then Some (a, rank) else None) tbl"

text \<open>
  \<open>ORDER BY a.data_decisao DESC\<close> and \<open>ORDER BY rank\<close>, where \<open>rank\<close> is the result column
  \<open>bm25(acordaos_fts)\<close>. NULL sorts below every string. SQL leaves the order of rows with
  equal keys open; the model keeps them in rowid order.
\<close>

datatype order_clause = Data_decisao_DESC | Rank

fun order_by :: "order_clause \<Rightarrow> (acordao \<times> real) list \<Rightarrow> (acordao \<times> real) list" where
  "order_by Data_decisao_DESC rows =
     rev (sort_key (\<lambda>row. sql_text (data_decisao (fst row))) (rev rows))"
| "order_by Rank rows = sort_key snd rows"

text \<open>\<open>LIMIT ?\<close>: a negative value is no limit.\<close>

definition sql_limit :: "int \<Rightarrow> 'a list \<Rightarrow> 'a list" where
  "sql_limit n rows = (if n < 0 then rows else take (nat n) rows)"

text \<open>
  \<open>search\<close>. The parameters are bound before the statement runs, and sqlite3 refuses an
  \<open>int\<close> outside 64 bits with \<open>OverflowError\<close>.
\<close>

definition search ::
  "world \<Rightarrow> sys \<Rightarrow> string \<Rightarrow> string option \<Rightarrow> string option \<Rightarrow> string option \<Rightarrow> int \<Rightarrow> string
     \<Rightarrow> exn + (acordao \<times> real) list" where
  "search W conn query ministro classe desde limit order =
     (let (filter_sql, filter_params) = build_filters ministro classe desde;
          order_clause = (if order = ''data'' then Data_decisao_DESC else Rank)
      in if limit < - (2 ^ 63) \<or> 2 ^ 63 \<le> limit then Inl OverflowError
         else case fts_match W query (acordaos conn) of
                Inl e \<Rightarrow> Inl e
              | Inr score \<Rightarrow>
                  Inr (sql_limit limit
                        (order_by order_clause
                          (selected score (zip filter_sql filter_params) (acordaos conn)))))"

text \<open>
  \<open>search_stats\<close>: the same rows, counted as a whole and by group.
  \<open>GROUP BY key ORDER BY cnt DESC\<close> gives every key its number of rows, the larger counts
  first; the years are the first four characters of the non-empty decision dates, the later
  years first. Among equal counts SQL leaves the order open; the model keeps the keys in
  the order in which the rows bring them.
\<close>

definition group_count :: "'k list \<Rightarrow> ('k \<times> nat) list" where
  "group_count keys = map (\<lambda>k. (k, count_list keys k)) (remdups keys)"

definition by_cnt_desc :: "('k \<times> nat) list \<Rightarrow> ('k \<times> nat) list" where
  "by_cnt_desc groups = rev (sort_key snd (rev groups))"

record stats =
  stats_total :: nat
  by_orgao :: "(string option \<times> nat) list"
  by_classe :: "(string option \<times> nat) list"
  by_relator :: "(string option \<times> nat) list"
  by_year :: "(string \<times> nat) list"

definition search_stats ::
  "world \<Rightarrow> sys \<Rightarrow> string \<Rightarrow> string option \<Rightarrow> string option \<Rightarrow> string option \<Rightarrow> exn + stats" where
  "search_stats W conn query ministro classe desde =
     (let (filter_sql, filter_params) = build_filters ministro classe desde
      in case fts_match W query (acordaos conn) of
           Inl e \<Rightarrow> Inl e
         | Inr score \<Rightarrow>
             (let base = map fst (selected score (zip filter_sql filter_params) (acordaos conn));
                  dated = filter (\<lambda>d. d \<noteq> None \<and> d \<noteq> Some [])
                            (map (\<lambda>a. sql_text (data_decisao a)) base)
              in Inr \<lparr>
                   stats_total = length base,
                   by_orgao = by_cnt_desc (group_count (map (\<lambda>a. sql_text (orgao_julgador a)) base)),
                   by_classe =
                     take 10 (by_cnt_desc (group_count (map (\<lambda>a. sql_text (sigla_classe a)) base))),
                   by_relator =
                     take 10 (by_cnt_desc (group_count (map (\<lambda>a. sql_text (ministro_relator a)) base))),
                   by_year =
                     take 15 (rev (sort_key fst (group_count (map (\<lambda>d. take 4 (the d)) dated)))) \<rparr>))"

section \<open>The filters, as the specification words them\<close>

text \<open>
  \<open>infix_substring v t\<close>: the text \<open>t\<close> contains \<open>v\<close> as a run of consecutive characters,
  letter case and all. \<open>like_value v t\<close>: \<open>t\<close> matches the pattern \<open>%v%\<close> of the program.
  \<open>plain v\<close>: \<open>v\<close> has neither of the two characters that \<open>LIKE\<close> reads as wildcards.
\<close>

definition infix_substring :: "string \<Rightarrow> string \<Rightarrow> bool" where
  "infix_substring v t = list_ex (\<lambda>i. take (length v) (drop i t) = v) [0..<Suc (length t)]"

definition like_value :: "string \<Rightarrow> string \<Rightarrow> bool" where
  "like_value v t = like (''%'' @ v @ ''%'') t"

definition plain :: "string \<Rightarrow> bool" where
  "plain v = (CHR ''%'' \<notin> set v \<and> CHR ''_'' \<notin> set v)"

text \<open>
  A record passes the filters of a request when every filter that is given and not empty
  holds of it: the field of a substring filter is not NULL and matches \<open>%value%\<close>, the
  decision date is not NULL and not below the bound in the order of strings.
\<close>

definition passes_filters :: "string option \<Rightarrow> string option \<Rightarrow> string option \<Rightarrow> acordao \<Rightarrow> bool" where
  "passes_filters ministro classe desde a =
     ((given ministro \<longrightarrow>
         (case sql_text (ministro_relator a) of None \<Rightarrow> False | Some t \<Rightarrow> like_value (the ministro) t))
    \<and> (given classe \<longrightarrow>
         (case sql_text (sigla_classe a) of None \<Rightarrow> False | Some t \<Rightarrow> like_value (the classe) t))
    \<and> (given desde \<longrightarrow>
         (case sql_text (data_decisao a) of None \<Rightarrow> False | Some t \<Rightarrow> the desde \<le> t)))"

text \<open>
  The rows of a table that the engine scores and that satisfy \<open>P\<close>, in the order of the
  table, each with its score.
\<close>

definition matching ::
  "(acordao \<Rightarrow> real option) \<Rightarrow> (acordao \<Rightarrow> bool) \<Rightarrow> acordao list \<Rightarrow> (acordao \<times> real) list" where
  "matching score P tbl =
     List.map_filter
       (\<lambda>a. case score a of None \<Rightarrow> None | Some rank \<Rightarrow> if P a then Some (a, rank) else None) tbl"

section \<open>What a run never undoes\<close>

text \<open>
  \<open>markers c\<close>: the keys of the table \<open>sync_state\<close>. \<open>sent_between c c'\<close>: the requests
  logged in \<open>c'\<close> after those of \<open>c\<close>. \<open>extends c c'\<close>: the log of \<open>c'\<close> starts with the log
  of \<open>c\<close>, every identifier in the table of \<open>c\<close> is in the table of \<open>c'\<close>, and every
  resource marked in \<open>c\<close> is marked in \<open>c'\<close>.
\<close>

definition markers :: "sys \<Rightarrow> (string \<times> string) set" where
  "markers c = (\<lambda>(d, r, n). (d, r)) ` set (sync_state c)"

definition sent_between :: "sys \<Rightarrow> sys \<Rightarrow> request list" where
  "sent_between c c' = drop (length (requests c)) (requests c')"

definition extends :: "sys \<Rightarrow> sys \<Rightarrow> bool" where
  "extends c c' =
     (take (length (requests c)) (requests c') = requests c
      \<and> acordao_id ` set (acordaos c) \<subseteq> acordao_id ` set (acordaos c')
      \<and> markers c \<subseteq> markers c')"

text \<open>
  A resource whose turn in the loop raises nothing outside the \<open>try\<close> statement: it has the
  two keys the loop reads without a default, and its identifier can be bound when
  \<open>is_synced\<close> is asked, which is when \<open>force\<close> is off.
\<close>

definition well_formed :: "bool \<Rightarrow> resource \<Rightarrow> bool" where
  "well_formed force res =
     ((case map_of res ''id'' of None \<Rightarrow> False | Some res_id \<Rightarrow> force \<or> bindable res_id)
      \<and> map_of res ''url'' \<noteq> None)"

text \<open>
  \<open>in_store c records\<close>: a lookup by identifier finds every one of the records in \<open>c\<close>.
  \<open>delivered W ds res_id res_format res_url c c'\<close>: the records that the resource hands over
  when it is fetched in the state \<open>c\<close> (the array at its URL, or the arrays in the files
  extracted from its archive) are normalised without an exception and are in the store of
  \<open>c'\<close>, and the resource is marked in \<open>c'\<close>.
\<close>

definition in_store :: "sys \<Rightarrow> acordao list \<Rightarrow> bool" where
  "in_store c records = list_all (\<lambda>a. get_by_id c (acordao_id a) \<noteq> None) records"

definition payload_in_store :: "world \<Rightarrow> sys \<Rightarrow> pydict list \<Rightarrow> bool" where
  "payload_in_store W c raw =
     (case normalize W raw of Inl e \<Rightarrow> False | Inr records \<Rightarrow> in_store c records)"

definition delivered ::
  "world \<Rightarrow> string \<Rightarrow> pyval \<Rightarrow> string \<Rightarrow> pyval \<Rightarrow> sys \<Rightarrow> sys \<Rightarrow> bool" where
  "delivered W ds res_id res_format res_url c c' =
     (is_synced c' ds res_id = Inr True
      \<and> (case res_url of
            PStr url \<Rightarrow>
              if res_format = ''ZIP'' then
                (case download_and_extract_zip W url ds c of
                   (c1, Inl e) \<Rightarrow> False
                 | (c1, Inr json_files) \<Rightarrow>
                     list_all (\<lambda>f. case files c1 f of
                                      Some (Records raw) \<Rightarrow> payload_in_store W c' raw
                                    | _ \<Rightarrow> False) json_files)
              else
                (case download_json W url c of
                   (c1, Inl e) \<Rightarrow> False
                 | (c1, Inr raw) \<Rightarrow> payload_in_store W c' raw)
          | _ \<Rightarrow> False))"


text \<open>
  The turn of a resource \<open>res\<close> in the loop over the data resources of the dataset \<open>ds\<close>,
  in the state \<open>c\<close> with the count \<open>t\<close>, the resources \<open>post\<close> coming after it.

  \<^item> \<open>res_marked c ds res\<close>: \<open>is_synced\<close> finds the marker of \<open>res\<close> in \<open>c\<close>.
  \<^item> \<open>passed_over\<close>: the loop goes on with \<open>post\<close> from the state and the count it has.
  \<^item> \<open>attempted\<close>: the loop reads the keys of \<open>res\<close> and runs the body of the \<open>try\<close>
    statement on it. Whatever the body returns or raises, the loop goes on with \<open>post\<close>
    from the state and the count the body left. A URL that is a string was requested on
    the way. Seen from a later state \<open>c'\<close>: nothing the body left is lost, and if the body
    raised nothing, the resource is delivered in \<open>c'\<close>.
\<close>

definition res_marked :: "sys \<Rightarrow> string \<Rightarrow> resource \<Rightarrow> bool" where
  "res_marked c ds res =
     (case map_of res ''id'' of None \<Rightarrow> False | Some res_id \<Rightarrow> is_synced c ds res_id = Inr True)"

definition passed_over ::
  "world \<Rightarrow> string \<Rightarrow> bool \<Rightarrow> resource \<Rightarrow> resource list \<Rightarrow> sys \<Rightarrow> nat \<Rightarrow> bool" where
  "passed_over W ds force res post c t =
     (sync_resources W ds force (res # post) c t = sync_resources W ds force post c t)"

definition attempted ::
  "world \<Rightarrow> string \<Rightarrow> bool \<Rightarrow> resource \<Rightarrow> resource list \<Rightarrow> sys \<Rightarrow> nat \<Rightarrow> sys \<Rightarrow> bool" where
  "attempted W ds force res post c t c' =
     (\<exists>res_id res_format res_url c2 t2 r.
        map_of res ''id'' = Some res_id
      \<and> py_upper (dict_get res ''format'' (PStr [])) = Inr res_format
      \<and> map_of res ''url'' = Some res_url
      \<and> try_body W ds res_id (dict_get res ''name'' (PStr [])) res_format res_url c t = (c2, t2, r)
      \<and> sync_resources W ds force (res # post) c t = sync_resources W ds force post c2 t2
      \<and> (\<forall>url. res_url = PStr url \<longrightarrow> Get url \<in> set (sent_between c c2))
      \<and> extends c2 c'
      \<and> (r = Inr () \<longrightarrow> delivered W ds res_id res_format res_url c c'))"

section \<open>Data for the concrete runs\<close>

text \<open>
  A record as \<open>from_json\<close> builds it from an object that has only the keys \<open>id\<close>,
  \<open>siglaClasse\<close>, \<open>ministroRelator\<close>, \<open>dataDecisao\<close> and \<open>ementa\<close>.
\<close>

definition example_record :: "string \<Rightarrow> string \<Rightarrow> string \<Rightarrow> string \<Rightarrow> string \<Rightarrow> acordao" where
  "example_record i classe relator date txt =
     \<lparr> acordao_id = i,
       numero_documento = PNone,
       numero_processo = PStr [],
       numero_registro = PStr [],
       sigla_classe = PStr classe,
       descricao_classe = PStr [],
       classe_padronizada = PNone,
       orgao_julgador = PStr [],
       ministro_relator = PStr relator,
       data_publicacao = PStr [],
       ementa = PStr txt,
       tipo_decisao = PStr [],
       data_decisao = PStr date,
       decisao = PStr [],
       jurisprudencia_citada = PNone,
       notas = PNone,
       informacoes_complementares = PNone,
       termos_auxiliares = PNone,
       tese_juridica = PNone,
       tema = PNone,
       referencias_legislativas = PStr [],
       acordaos_similares = PStr [] \<rparr>"

definition example_raw :: "string \<Rightarrow> string \<Rightarrow> string \<Rightarrow> string \<Rightarrow> string \<Rightarrow> pydict" where
  "example_raw i classe relator date txt =
     [(''id'', PStr i), (''siglaClasse'', PStr classe), (''ministroRelator'', PStr relator),
      (''dataDecisao'', PStr date), (''ementa'', PStr txt)]"

text \<open>A store with its tables, the given rows and nothing else.\<close>

definition store_of :: "acordao list \<Rightarrow> sys" where
  "store_of rows =
     \<lparr> tables = True, acordaos = rows, sync_state = [], files = (\<lambda>p. None), requests = [] \<rparr>"

text \<open>The database file as \<open>get_connection\<close> creates it: no table yet.\<close>

definition new_database :: sys where
  "new_database =
     \<lparr> tables = False, acordaos = [], sync_state = [], files = (\<lambda>p. None), requests = [] \<rparr>"

text \<open>
  A world whose catalogue answers every request with the given function of the request, and
  whose engine lets a row match a query when the holding text contains the query, with the
  negated length of the holding text as its score.
\<close>

definition world_of :: "(request \<Rightarrow> outcome) \<Rightarrow> world" where
  "world_of answer =
     \<lparr> http = (\<lambda>n rq. answer rq),
       repr = (\<lambda>v. []),
       dumps = (\<lambda>xs. ''[...]''),
       fts5 = (\<lambda>q tbl. Inr (\<lambda>a. case sql_text (ementa a) of
                                   None \<Rightarrow> None
                                 | Some t \<Rightarrow> if infix_substring q t
                                             then Some (- real (length t)) else None)) \<rparr>"

definition offline :: world where
  "offline = world_of (\<lambda>rq. TransportErr)"

text \<open>Three records and the store that holds them.\<close>

definition silva :: acordao where
  "silva = example_record ''1'' ''REsp'' ''SILVA'' ''20191231'' ''dano moral''"

definition costa :: acordao where
  "costa = example_record ''2'' ''AgInt'' ''COSTA'' ''20200101'' ''dano em contrato''"

definition costa_e_silva :: acordao where
  "costa_e_silva = example_record ''3'' ''REsp'' ''Costa e Silva'' ''20200101'' ''dano''"

definition three :: sys where
  "three = store_of [silva, costa, costa_e_silva]"

text \<open>
  Catalogues for the runs of the sync engine. Every dataset lists one resource \<open>r1\<close> at the
  URL \<open>u1\<close> and one resource \<open>r2\<close> at \<open>u2\<close>.

  \<^item> \<open>malformed_answer\<close>: \<open>u1\<close> is a JSON array of a well-formed record and a record
    without \<open>id\<close>; \<open>u2\<close> is a JSON array of one well-formed record.
  \<^item> \<open>listing_down_answer\<close>: the same, but the listing of the first dataset of \<open>DATASETS\<close>
    cannot be reached.
  \<^item> \<open>zip_answer\<close>: \<open>u1\<close> is a ZIP archive of \<open>a.json\<close>, whose record has no \<open>id\<close>, and
    \<open>b.json\<close>, which is well-formed; \<open>u2\<close> as before.
  \<^item> \<open>null_id_answer\<close>: the first resource of every listing has \<open>null\<close> as its \<open>id\<close>
    and a well-formed record at \<open>u1\<close>; the second is a ZIP resource \<open>r2\<close> whose archive at
    \<open>u2\<close> holds one file with one well-formed record.
\<close>

definition json_resource :: "string \<Rightarrow> string \<Rightarrow> resource" where
  "json_resource i url =
     [(''id'', PStr i), (''name'', PStr (i @ ''.json'')), (''format'', PStr ''JSON''),
      (''url'', PStr url)]"

definition zip_resource :: "string \<Rightarrow> string \<Rightarrow> resource" where
  "zip_resource i url =
     [(''id'', PStr i), (''name'', PStr (i @ ''.zip'')), (''format'', PStr ''ZIP''),
      (''url'', PStr url)]"

definition null_id_resource :: "string \<Rightarrow> resource" where
  "null_id_resource url =
     [(''id'', PNone), (''name'', PStr ''r1.json''), (''format'', PStr ''json''),
      (''url'', PStr url)]"

definition raw_1 :: pydict where
  "raw_1 = example_raw ''1'' ''REsp'' ''SILVA'' ''20191231'' ''dano moral''"

definition raw_2 :: pydict where
  "raw_2 = example_raw ''2'' ''AgInt'' ''COSTA'' ''20200101'' ''dano em contrato''"

definition raw_without_id :: pydict where
  "raw_without_id = [(''ementa'', PStr ''sem identificador'')]"

fun malformed_answer :: "request \<Rightarrow> outcome" where
  "malformed_answer (PackageShow d) =
     Response (Listing [json_resource ''r1'' ''u1'', json_resource ''r2'' ''u2''])"
| "malformed_answer (Get url) =
     (if url = ''u1'' then Response (Records [raw_1, raw_without_id])
      else if url = ''u2'' then Response (Records [raw_2])
      else StatusError)"

fun listing_down_answer :: "request \<Rightarrow> outcome" where
  "listing_down_answer (PackageShow d) =
     (if d = ''espelhos-de-acordaos-corte-especial'' then TransportErr
      else Response (Listing [json_resource ''r1'' ''u1'', json_resource ''r2'' ''u2'']))"
| "listing_down_answer (Get url) =
     (if url = ''u1'' then Response (Records [raw_1])
      else if url = ''u2'' then Response (Records [raw_2])
      else StatusError)"

fun zip_answer :: "request \<Rightarrow> outcome" where
  "zip_answer (PackageShow d) =
     Response (Listing [zip_resource ''r1'' ''u1'', json_resource ''r2'' ''u2''])"
| "zip_answer (Get url) =
     (if url = ''u1''
      then Response (Archive [(''a.json'', Records [raw_without_id]), (''b.json'', Records [raw_1])])
      else if url = ''u2'' then Response (Records [raw_2])
      else StatusError)"

fun null_id_answer :: "request \<Rightarrow> outcome" where
  "null_id_answer (PackageShow d) =
     Response (Listing [null_id_resource ''u1'', zip_resource ''r2'' ''u2''])"
| "null_id_answer (Get url) =
     (if url = ''u1'' then Response (Records [raw_1])
      else if url = ''u2'' then Response (Archive [(''a.json'', Records [raw_2])])
      else StatusError)"

text \<open>
  A store in which the resource \<open>r2\<close> of the dataset \<open>ds\<close> is marked as synced, as a run
  leaves it in which \<open>u2\<close> listed no record.
\<close>

definition marked :: "string \<Rightarrow> sys" where
  "marked ds = \<lparr> tables = True, acordaos = [], sync_state = [(ds, ''r2'', PStr ''r2.json'')],
                 files = (\<lambda>p. None), requests = [] \<rparr>"

section \<open>Upsert\<close>

lemma executemany_Inr:
  "executemany tbl rs = (tbl', Inr u) \<Longrightarrow>
     tbl' = foldl insert_or_replace tbl rs \<and> (\<forall>r\<in>set rs. list_all bindable (astuple r))"
  by (induction rs arbitrary: tbl) (auto split: if_splits)

lemma executemany_bindable:
  "\<forall>r\<in>set rs. list_all bindable (astuple r) \<Longrightarrow>
     executemany tbl rs = (foldl insert_or_replace tbl rs, Inr ())"
  by (induction rs arbitrary: tbl) auto

lemma foldl_ior_split:
  "foldl insert_or_replace tbl rs =
     filter (\<lambda>x. acordao_id x \<notin> acordao_id ` set rs) tbl @ foldl insert_or_replace [] rs"
proof (induction rs arbitrary: tbl)
  case Nil
  show ?case by simp
next
  case (Cons r rs)
  let ?P = "\<lambda>x. acordao_id x \<notin> acordao_id ` set rs"
  have a: "foldl insert_or_replace (insert_or_replace tbl r) rs
             = filter ?P (insert_or_replace tbl r) @ foldl insert_or_replace [] rs"
    by (rule Cons.IH)
  have b: "foldl insert_or_replace [r] rs = filter ?P [r] @ foldl insert_or_replace [] rs"
    by (rule Cons.IH)
  have c: "insert_or_replace [] r = [r]"
    by (simp add: insert_or_replace_def)
  have d: "filter ?P (insert_or_replace tbl r)
             = filter (\<lambda>x. acordao_id x \<notin> acordao_id ` set (r # rs)) tbl @ filter ?P [r]"
    by (auto simp: insert_or_replace_def intro: filter_cong)
  show ?case
    by (simp only: foldl_Cons a b c d append_assoc)
qed

lemma ids_foldl_ior:
  "acordao_id ` set (foldl insert_or_replace tbl rs) = acordao_id ` set tbl \<union> acordao_id ` set rs"
  by (induction rs arbitrary: tbl) (auto simp: insert_or_replace_def)

lemma distinct_insert_or_replace:
  "distinct (map acordao_id tbl) \<Longrightarrow> distinct (map acordao_id (insert_or_replace tbl r))"
  by (auto simp: insert_or_replace_def distinct_map_filter)

lemma distinct_foldl_ior:
  "distinct (map acordao_id tbl) \<Longrightarrow> distinct (map acordao_id (foldl insert_or_replace tbl rs))"
  by (induction rs arbitrary: tbl) (auto simp: distinct_insert_or_replace)

lemma foldl_ior_idem:
  "foldl insert_or_replace (foldl insert_or_replace tbl rs) rs = foldl insert_or_replace tbl rs"
proof -
  let ?P = "\<lambda>x. acordao_id x \<notin> acordao_id ` set rs"
  have "filter ?P (foldl insert_or_replace [] rs) = []"
    using ids_foldl_ior [of "[]" rs] by (auto simp: filter_empty_conv)
  then have "filter ?P (foldl insert_or_replace tbl rs) = filter ?P tbl"
    by (subst foldl_ior_split) simp
  then show ?thesis
    by (subst foldl_ior_split) (simp add: foldl_ior_split [of tbl rs, symmetric])
qed

lemma find_filter_keep:
  "(\<And>x. P x \<Longrightarrow> Q x) \<Longrightarrow> find P (filter Q xs) = find P xs"
  by (induction xs) auto

lemma find_snoc:
  "find P (xs @ [x]) =
     (case find P xs of Some y \<Rightarrow> Some y | None \<Rightarrow> if P x then Some x else None)"
  by (induction xs) auto

lemma find_insert_or_replace:
  "find (\<lambda>a. acordao_id a = i) (insert_or_replace tbl r) =
     (if acordao_id r = i then Some r else find (\<lambda>a. acordao_id a = i) tbl)"
proof (cases "acordao_id r = i")
  case True
  have "find (\<lambda>a. acordao_id a = i) (filter (\<lambda>x. acordao_id x \<noteq> acordao_id r) tbl) = None"
    using True by (simp add: find_None_iff)
  then show ?thesis
    using True by (simp add: insert_or_replace_def find_snoc)
next
  case False
  have "find (\<lambda>a. acordao_id a = i) (filter (\<lambda>x. acordao_id x \<noteq> acordao_id r) tbl)
        = find (\<lambda>a. acordao_id a = i) tbl"
    using False by (intro find_filter_keep) auto
  then show ?thesis
    using False by (simp add: insert_or_replace_def find_snoc split: option.splits)
qed

lemma find_foldl_ior:
  "find (\<lambda>a. acordao_id a = i) (foldl insert_or_replace tbl rs) =
     (case find (\<lambda>a. acordao_id a = i) (rev rs) of
        Some r \<Rightarrow> Some r
      | None \<Rightarrow> find (\<lambda>a. acordao_id a = i) tbl)"
  by (induction rs rule: rev_induct) (simp_all add: find_insert_or_replace)

lemma upsert_acordaos_Inr:
  assumes "upsert_acordaos conn records = (conn1, Inr n)"
  shows "conn1 = conn\<lparr>acordaos := foldl insert_or_replace (acordaos conn) records\<rparr>"
    and "n = length records"
    and "\<forall>r\<in>set records. list_all bindable (astuple r)"
proof -
  show "conn1 = conn\<lparr>acordaos := foldl insert_or_replace (acordaos conn) records\<rparr>"
    using assms
    by (cases "records = []")
       (auto simp: upsert_acordaos_def split: prod.splits sum.splits dest: executemany_Inr)
  show "n = length records"
    using assms
    by (cases "records = []") (auto simp: upsert_acordaos_def split: prod.splits sum.splits)
  show "\<forall>r\<in>set records. list_all bindable (astuple r)"
    using assms
    by (cases "records = []")
       (auto simp: upsert_acordaos_def split: prod.splits sum.splits dest: executemany_Inr)
qed

lemma upsert_acordaos_bindable:
  "\<forall>r\<in>set records. list_all bindable (astuple r) \<Longrightarrow>
     upsert_acordaos conn records =
       (conn\<lparr>acordaos := foldl insert_or_replace (acordaos conn) records\<rparr>, Inr (length records))"
  by (cases "records = []") (simp_all add: upsert_acordaos_def executemany_bindable)

text \<open>
  C4. Upsert is idempotent and keeps the identifiers unique. In a store with one row per
  identifier, let a batch be upserted. Then one row per identifier is there again, the
  identifiers are those of before and those of the batch, and every identifier of the
  batch now leads to the whole record the batch holds for it last, whatever the row of
  before was. Upserting the same batch once more returns the same count and leaves the
  store as the first upsert left it, so that the number of rows is the same.
\<close>

theorem upsert_idempotent_unique:
  assumes "distinct (map acordao_id (acordaos conn))"
      and "upsert_acordaos conn records = (conn1, Inr n)"
  shows "distinct (map acordao_id (acordaos conn1))
       \<and> acordao_id ` set (acordaos conn1)
           = acordao_id ` set (acordaos conn) \<union> acordao_id ` set records
       \<and> (\<forall>r\<in>set records.
             get_by_id conn1 (acordao_id r)
               = find (\<lambda>x. acordao_id x = acordao_id r) (rev records))
       \<and> n = length records
       \<and> upsert_acordaos conn1 records = (conn1, Inr n)
       \<and> (\<forall>conn2 m. upsert_acordaos conn1 records = (conn2, Inr m) \<longrightarrow>
             length (acordaos conn2) = length (acordaos conn1)
               \<and> distinct (map acordao_id (acordaos conn2)))"
proof -
  note u = upsert_acordaos_Inr [OF assms(2)]
  have tbl: "acordaos conn1 = foldl insert_or_replace (acordaos conn) records"
    using u(1) by simp
  have d: "distinct (map acordao_id (acordaos conn1))"
    using assms(1) by (simp add: tbl distinct_foldl_ior)
  have ids: "acordao_id ` set (acordaos conn1)
               = acordao_id ` set (acordaos conn) \<union> acordao_id ` set records"
    by (simp add: tbl ids_foldl_ior)
  have last_wins: "get_by_id conn1 (acordao_id r)
                     = find (\<lambda>x. acordao_id x = acordao_id r) (rev records)"
    if "r \<in> set records" for r
  proof -
    have "find (\<lambda>x. acordao_id x = acordao_id r) (rev records) \<noteq> None"
      using that by (auto simp: find_None_iff)
    then show ?thesis
      by (auto simp: get_by_id_def tbl find_foldl_ior split: option.splits)
  qed
  have same: "foldl insert_or_replace (acordaos conn1) records = acordaos conn1"
    by (simp add: tbl foldl_ior_idem)
  have again: "upsert_acordaos conn1 records = (conn1, Inr n)"
    using u(2) by (simp add: upsert_acordaos_bindable [OF u(3)] same)
  show ?thesis
    using d ids last_wins u(2) again by auto
qed

theorem upsert_idempotent_unique_witness:
  "distinct (map acordao_id (acordaos (store_of [example_record ''1'' ''REsp'' ''SILVA'' ''20191231'' ''dano''])))
   \<and> upsert_acordaos (store_of [example_record ''1'' ''REsp'' ''SILVA'' ''20191231'' ''dano''])
        [example_record ''1'' ''AgInt'' ''COSTA'' ''20200101'' ''contrato'',
         example_record ''2'' ''REsp'' ''SILVA'' ''20200101'' ''dano moral'']
      = (store_of [example_record ''1'' ''AgInt'' ''COSTA'' ''20200101'' ''contrato'',
                   example_record ''2'' ''REsp'' ''SILVA'' ''20200101'' ''dano moral''], Inr 2)
   \<and> upsert_acordaos (store_of [example_record ''1'' ''AgInt'' ''COSTA'' ''20200101'' ''contrato'',
                   example_record ''2'' ''REsp'' ''SILVA'' ''20200101'' ''dano moral''])
        [example_record ''1'' ''AgInt'' ''COSTA'' ''20200101'' ''contrato'',
         example_record ''2'' ''REsp'' ''SILVA'' ''20200101'' ''dano moral'']
      = (store_of [example_record ''1'' ''AgInt'' ''COSTA'' ''20200101'' ''contrato'',
                   example_record ''2'' ''REsp'' ''SILVA'' ''20200101'' ''dano moral''], Inr 2)
   \<and> get_by_id (store_of [example_record ''1'' ''AgInt'' ''COSTA'' ''20200101'' ''contrato'',
                   example_record ''2'' ''REsp'' ''SILVA'' ''20200101'' ''dano moral'']) ''1''
      = Some (example_record ''1'' ''AgInt'' ''COSTA'' ''20200101'' ''contrato'')"
proof -
  let ?old = "example_record ''1'' ''REsp'' ''SILVA'' ''20191231'' ''dano''"
  let ?new = "example_record ''1'' ''AgInt'' ''COSTA'' ''20200101'' ''contrato''"
  let ?two = "example_record ''2'' ''REsp'' ''SILVA'' ''20200101'' ''dano moral''"
  have h1: "distinct (map acordao_id (acordaos (store_of [?old])))"
    by (simp add: store_of_def)
  have h2: "upsert_acordaos (store_of [?old]) [?new, ?two] = (store_of [?new, ?two], Inr 2)"
    by (simp add: upsert_acordaos_def store_of_def astuple_def example_record_def
                  insert_or_replace_def)
  have i: "acordao_id ?new = ''1''" "acordao_id ?two = ''2''"
    by (simp_all add: example_record_def)
  from upsert_idempotent_unique [OF h1 h2]
  have "upsert_acordaos (store_of [?new, ?two]) [?new, ?two] = (store_of [?new, ?two], Inr 2)"
   and "get_by_id (store_of [?new, ?two]) (acordao_id ?new)
          = find (\<lambda>x. acordao_id x = acordao_id ?new) (rev [?new, ?two])"
    by simp_all
  with h1 h2 i show ?thesis by simp
qed

section \<open>Filters\<close>

lemma build_filters_empty_ministro:
  "build_filters (Some []) classe desde = build_filters None classe desde"
  by (simp add: build_filters_def given_def)

lemma build_filters_empty_classe:
  "build_filters ministro (Some []) desde = build_filters ministro None desde"
  by (simp add: build_filters_def given_def)

lemma build_filters_empty_desde:
  "build_filters ministro classe (Some []) = build_filters ministro classe None"
  by (simp add: build_filters_def given_def)

text \<open>
  C10. An empty filter value is no filter. \<open>_build_filters\<close> appends a clause only for a
  value that is true in Python, and the empty string is not: with the empty string for the
  reporting judge, for the class code or for the date, \<open>search\<close> and \<open>search_stats\<close> return
  what they return with \<open>None\<close> there, and with all three empty no clause is built at all.
\<close>

theorem empty_filter_is_no_filter:
  "search W conn query (Some []) classe desde limit order
     = search W conn query None classe desde limit order
   \<and> search W conn query ministro (Some []) desde limit order
     = search W conn query ministro None desde limit order
   \<and> search W conn query ministro classe (Some []) limit order
     = search W conn query ministro classe None limit order
   \<and> search_stats W conn query (Some []) classe desde
     = search_stats W conn query None classe desde
   \<and> search_stats W conn query ministro (Some []) desde
     = search_stats W conn query ministro None desde
   \<and> search_stats W conn query ministro classe (Some [])
     = search_stats W conn query ministro classe None
   \<and> build_filters (Some []) (Some []) (Some []) = ([], [])"
  by (simp add: search_def search_stats_def build_filters_empty_ministro
                build_filters_empty_classe build_filters_empty_desde)
     (simp add: build_filters_def given_def)

section \<open>Search\<close>

lemma order_by_data_sorted:
  "sorted_wrt (\<ge>) (map (\<lambda>row. sql_text (data_decisao (fst row))) (order_by Data_decisao_DESC rows))"
  by (simp add: rev_map [symmetric] sorted_wrt_rev del: rev_map) 

lemma order_by_rank_sorted: "sorted (map snd (order_by Rank rows))"
  by simp

lemma sql_limit_sorted_wrt: "sorted_wrt P (map f rows) \<Longrightarrow> sorted_wrt P (map f (sql_limit n rows))"
  by (simp add: sql_limit_def take_map [symmetric] sorted_wrt_take del: take_map)

lemma length_sql_limit: "0 \<le> n \<Longrightarrow> length (sql_limit n rows) \<le> nat n"
  by (simp add: sql_limit_def)

lemma like_percent_all: "like ''%'' t"
  by (induction t) auto

lemma like_percent_iff:
  "like (CHR ''%'' # ps) t \<longleftrightarrow> (\<exists>i\<le>length t. like ps (drop i t))"
proof (induction t)
  case Nil
  show ?case by simp
next
  case (Cons c cs)
  have "(\<exists>i\<le>length (c # cs). like ps (drop i (c # cs)))
          \<longleftrightarrow> like ps (c # cs) \<or> (\<exists>i\<le>length cs. like ps (drop i cs))"
  proof
    assume "\<exists>i\<le>length (c # cs). like ps (drop i (c # cs))"
    then obtain i where i: "i \<le> length (c # cs)" "like ps (drop i (c # cs))" by blast
    show "like ps (c # cs) \<or> (\<exists>i\<le>length cs. like ps (drop i cs))"
    proof (cases i)
      case 0
      with i show ?thesis by simp
    next
      case (Suc j)
      with i have "j \<le> length cs" "like ps (drop j cs)" by simp_all
      then show ?thesis by blast
    qed
  next
    assume "like ps (c # cs) \<or> (\<exists>i\<le>length cs. like ps (drop i cs))"
    then show "\<exists>i\<le>length (c # cs). like ps (drop i (c # cs))"
    proof
      assume "like ps (c # cs)"
      then have "like ps (drop 0 (c # cs))" by simp
      then show ?thesis by blast
    next
      assume "\<exists>i\<le>length cs. like ps (drop i cs)"
      then obtain i where "i \<le> length cs" "like ps (drop i cs)" by blast
      then have "Suc i \<le> length (c # cs)" "like ps (drop (Suc i) (c # cs))" by simp_all
      then show ?thesis by blast
    qed
  qed
  with Cons show ?case by simp
qed

lemma like_plain_prefix:
  "CHR ''%'' \<notin> set v \<Longrightarrow> CHR ''_'' \<notin> set v \<Longrightarrow>
     like (v @ ''%'') t \<longleftrightarrow> map upper_char (take (length v) t) = map upper_char v"
proof (induction v arbitrary: t)
  case Nil
  show ?case by (simp add: like_percent_all)
next
  case (Cons p ps)
  then show ?case by (cases t) auto
qed

lemma infix_substring_iff:
  "infix_substring v t \<longleftrightarrow> (\<exists>i\<le>length t. take (length v) (drop i t) = v)"
  unfolding infix_substring_def list_ex_iff
  by (auto simp del: upt_Suc simp: less_Suc_eq_le)

lemma like_value_plain:
  assumes "plain v"
  shows "like_value v t \<longleftrightarrow> infix_substring (upper v) (upper t)"
proof -
  have "like_value v t \<longleftrightarrow> (\<exists>i\<le>length t. like (v @ ''%'') (drop i t))"
    by (simp add: like_value_def like_percent_iff)
  also have "\<dots> \<longleftrightarrow> (\<exists>i\<le>length t. map upper_char (take (length v) (drop i t)) = map upper_char v)"
    using assms by (simp add: plain_def like_plain_prefix)
  also have "\<dots> \<longleftrightarrow> infix_substring (upper v) (upper t)"
    by (simp add: infix_substring_iff upper_def take_map drop_map)
  finally show ?thesis .
qed

lemma holds_build_filters:
  "list_all (holds a) (zip (fst (build_filters ministro classe desde))
                           (snd (build_filters ministro classe desde)))
     \<longleftrightarrow> passes_filters ministro classe desde a"
  by (simp add: build_filters_def passes_filters_def like_value_def split: option.splits)

lemma holds_filters:
  "build_filters ministro classe desde = (filter_sql, filter_params) \<Longrightarrow>
     list_all (holds a) (zip filter_sql filter_params) = passes_filters ministro classe desde a"
  using holds_build_filters [of a ministro classe desde] by simp

lemma selected_passes:
  "build_filters ministro classe desde = (filter_sql, filter_params) \<Longrightarrow>
     selected score (zip filter_sql filter_params) tbl =
       matching score (passes_filters ministro classe desde) tbl"
  by (simp add: selected_def matching_def holds_filters cong: option.case_cong)

lemma search_Inr:
  assumes "search W conn query ministro classe desde limit order = Inr rows"
  shows "\<exists>score. fts_match W query (acordaos conn) = Inr score
           \<and> - (2 ^ 63) \<le> limit \<and> limit < 2 ^ 63
           \<and> rows = sql_limit limit
                (order_by (if order = ''data'' then Data_decisao_DESC else Rank)
                  (matching score (passes_filters ministro classe desde) (acordaos conn)))"
proof -
  obtain filter_sql filter_params
    where bf: "build_filters ministro classe desde = (filter_sql, filter_params)"
    by (cases "build_filters ministro classe desde")
  show ?thesis
    using assms
    by (simp add: search_def bf selected_passes [OF bf] split: sum.splits if_splits)
qed

lemma set_order_by: "set (order_by oc rows) = set rows"
  by (cases oc) simp_all

lemma length_order_by: "length (order_by oc rows) = length rows"
  by (cases oc) simp_all

lemma set_sql_limit: "set (sql_limit n rows) \<subseteq> set rows"
  by (auto simp: sql_limit_def dest: in_set_takeD)

lemma sql_limit_all: "n < 0 \<or> length rows \<le> nat n \<Longrightarrow> sql_limit n rows = rows"
  by (auto simp: sql_limit_def)

lemma set_matching:
  "set (matching score P tbl) = {(a, r). a \<in> set tbl \<and> score a = Some r \<and> P a}"
  by (induction tbl) (auto simp: matching_def List.map_filter_simps split: option.splits)

lemma length_matching:
  "length (matching score P tbl) = length (filter (\<lambda>a. score a \<noteq> None \<and> P a) tbl)"
  by (induction tbl) (auto simp: matching_def List.map_filter_simps split: option.splits)

text \<open>
  C5, as the code has it. The rows that \<open>search\<close> returns are the rows of the table that
  the full-text query matches and that pass every filter given with a value that is not
  empty, put in the requested order and cut at the cap: every returned row is such a row,
  and when the cap does not cut, the returned rows are all of them. A substring filter
  keeps the rows whose field is not NULL and matches \<open>%value%\<close> under \<open>LIKE\<close>; for a value
  without \<open>%\<close> and \<open>_\<close> these are the rows whose field contains the value when the letters
  \<open>a\<close> to \<open>z\<close> of both are read as capitals. The date filter keeps the rows whose decision
  date is not NULL and not below the bound in the order of strings.
\<close>

theorem filter_composition:
  assumes "search W conn query ministro classe desde limit order = Inr rows"
  shows "\<exists>score. fts_match W query (acordaos conn) = Inr score
           \<and> rows = sql_limit limit
                (order_by (if order = ''data'' then Data_decisao_DESC else Rank)
                  (matching score (passes_filters ministro classe desde) (acordaos conn)))
           \<and> (\<forall>row\<in>set rows. fst row \<in> set (acordaos conn) \<and> score (fst row) = Some (snd row)
                 \<and> passes_filters ministro classe desde (fst row))
           \<and> (limit < 0 \<or> length (filter (\<lambda>a. score a \<noteq> None
                                 \<and> passes_filters ministro classe desde a) (acordaos conn)) \<le> nat limit
                \<longrightarrow> set rows = {(a, r). a \<in> set (acordaos conn) \<and> score a = Some r
                                    \<and> passes_filters ministro classe desde a})
           \<and> (\<forall>v t. plain v \<longrightarrow> like_value v t = infix_substring (upper v) (upper t))"
proof -
  from search_Inr [OF assms] obtain score where
    m: "fts_match W query (acordaos conn) = Inr score" and
    r: "rows = sql_limit limit
                (order_by (if order = ''data'' then Data_decisao_DESC else Rank)
                  (matching score (passes_filters ministro classe desde) (acordaos conn)))"
    by blast
  have sub: "set rows \<subseteq> {(a, r). a \<in> set (acordaos conn) \<and> score a = Some r
                                  \<and> passes_filters ministro classe desde a}"
    using set_sql_limit [of limit "order_by (if order = ''data'' then Data_decisao_DESC else Rank)
                  (matching score (passes_filters ministro classe desde) (acordaos conn))"]
    by (simp add: r set_order_by set_matching)
  have all: "set rows = {(a, r). a \<in> set (acordaos conn) \<and> score a = Some r
                                  \<and> passes_filters ministro classe desde a}"
    if "limit < 0 \<or> length (filter (\<lambda>a. score a \<noteq> None
                   \<and> passes_filters ministro classe desde a) (acordaos conn)) \<le> nat limit"
    using that by (simp add: r sql_limit_all length_order_by length_matching set_order_by set_matching)
  show ?thesis
    using m r sub all like_value_plain by (intro exI [of _ score]) auto
qed

lemmas ex_defs = three_def store_of_def silva_def costa_def costa_e_silva_def example_record_def
  offline_def world_of_def

theorem filter_composition_witness:
  "search offline three ''dano'' (Some ''silva'') None (Some ''20200101'') 20 ''data''
     = Inr [(costa_e_silva, - 4)]
   \<and> passes_filters (Some ''silva'') None (Some ''20200101'') costa_e_silva
   \<and> \<not> passes_filters (Some ''silva'') None (Some ''20200101'') silva
   \<and> \<not> passes_filters (Some ''silva'') None (Some ''20200101'') costa
   \<and> plain ''silva''
   \<and> like_value ''silva'' ''Costa e Silva''
        = infix_substring (upper ''silva'') (upper ''Costa e Silva'')"
proof -
  have h: "search offline three ''dano'' (Some ''silva'') None (Some ''20200101'') 20 ''data''
             = Inr [(costa_e_silva, - 4)]"
    by (simp add: search_def build_filters_def given_def fts_match_def selected_def
        List.map_filter_def sql_limit_def infix_substring_def upper_char_def ex_defs)
  have p: "plain ''silva''"
    by (simp add: plain_def)
  have n: "\<not> passes_filters (Some ''silva'') None (Some ''20200101'') silva"
          "\<not> passes_filters (Some ''silva'') None (Some ''20200101'') costa"
    by (simp_all add: passes_filters_def given_def like_value_def upper_char_def ex_defs)
  from filter_composition [OF h] p
  have "passes_filters (Some ''silva'') None (Some ''20200101'') costa_e_silva"
   and "like_value ''silva'' ''Costa e Silva''
          = infix_substring (upper ''silva'') (upper ''Costa e Silva'')"
    by auto
  with h p n show ?thesis by simp
qed

text \<open>
  C5, as the specification has it, fails: the filter \<open>silva\<close> keeps the record of the
  reporting judge \<open>SILVA\<close>, whose name does not contain \<open>silva\<close> letter for letter.
\<close>

theorem case_sensitive_counterexample:
  "search offline three ''dano'' (Some ''silva'') None None 20 ''data''
     = Inr [(costa_e_silva, - 4), (silva, - 10)]
   \<and> sql_text (ministro_relator silva) = Some ''SILVA''
   \<and> \<not> infix_substring ''silva'' ''SILVA''"
proof -
  have "search offline three ''dano'' (Some ''silva'') None None 20 ''data''
          = Inr [(costa_e_silva, - 4), (silva, - 10)]"
    by (simp add: search_def build_filters_def given_def fts_match_def selected_def
        List.map_filter_def sql_limit_def infix_substring_def upper_char_def ex_defs)
  moreover have "sql_text (ministro_relator silva) = Some ''SILVA''"
    by (simp add: ex_defs)
  moreover have "\<not> infix_substring ''silva'' ''SILVA''"
    by (simp add: infix_substring_def)
  ultimately show ?thesis by simp
qed

text \<open>
  C6, as the code has it. One of the two orders is in force: with \<open>order = "data"\<close>, the
  default of the function, the decision dates of the returned rows never increase (NULL
  last); with any other value the scores never decrease. A cap that is not negative bounds
  the number of rows; under a negative cap every matching row that passes the filters is
  returned.
\<close>

theorem ordering_and_cap:
  assumes "search W conn query ministro classe desde limit order = Inr rows"
  shows "(if order = ''data''
          then sorted_wrt (\<ge>) (map (\<lambda>row. sql_text (data_decisao (fst row))) rows)
          else sorted (map snd rows))
       \<and> (0 \<le> limit \<longrightarrow> length rows \<le> nat limit)
       \<and> (limit < 0 \<longrightarrow>
            (\<exists>score. fts_match W query (acordaos conn) = Inr score
               \<and> length rows = length (filter (\<lambda>a. score a \<noteq> None
                                 \<and> passes_filters ministro classe desde a) (acordaos conn))))"
proof -
  from search_Inr [OF assms] obtain score where
    m: "fts_match W query (acordaos conn) = Inr score" and
    r: "rows = sql_limit limit
                (order_by (if order = ''data'' then Data_decisao_DESC else Rank)
                  (matching score (passes_filters ministro classe desde) (acordaos conn)))"
    by blast
  let ?sel = "matching score (passes_filters ministro classe desde) (acordaos conn)"
  have a: "sorted_wrt (\<ge>) (map (\<lambda>row. sql_text (data_decisao (fst row))) rows)" if "order = ''data''"
  proof -
    have "sorted_wrt (\<ge>) (map (\<lambda>row. sql_text (data_decisao (fst row)))
            (sql_limit limit (order_by Data_decisao_DESC ?sel)))"
      by (rule sql_limit_sorted_wrt) (rule order_by_data_sorted)
    with that show ?thesis by (simp add: r del: order_by.simps)
  qed
  have b: "sorted (map snd rows)" if "order \<noteq> ''data''"
  proof -
    have "sorted (map snd (sql_limit limit (order_by Rank ?sel)))"
      by (rule sql_limit_sorted_wrt) (rule order_by_rank_sorted)
    with that show ?thesis by (simp add: r del: order_by.simps)
  qed
  have c: "length rows \<le> nat limit" if "0 \<le> limit"
    using that by (simp add: r length_sql_limit)
  have d: "length rows = length (filter (\<lambda>a. score a \<noteq> None
                                 \<and> passes_filters ministro classe desde a) (acordaos conn))"
    if "limit < 0"
    using that by (simp add: r sql_limit_all length_order_by length_matching)
  show ?thesis
    using a b c d m by auto
qed

theorem ordering_and_cap_witness:
  "search offline three ''dano'' None None None 2 ''data''
     = Inr [(costa, - 16), (costa_e_silva, - 4)]
   \<and> sorted_wrt (\<ge>) (map (\<lambda>row. sql_text (data_decisao (fst row)))
                        [(costa, - 16 :: real), (costa_e_silva, - 4)])
   \<and> length [(costa, - 16 :: real), (costa_e_silva, - 4)] \<le> nat 2"
proof -
  have h: "search offline three ''dano'' None None None 2 ''data''
             = Inr [(costa, - 16), (costa_e_silva, - 4)]"
    by (simp add: search_def build_filters_def given_def fts_match_def selected_def
        List.map_filter_def sql_limit_def infix_substring_def upper_char_def ex_defs)
  from ordering_and_cap [OF h] h show ?thesis by simp
qed

text \<open>
  C6, as the specification has it, fails for the cap: with \<open>limit = -1\<close> three rows are
  returned, in the order of the scores.
\<close>

theorem negative_cap_counterexample:
  "search offline three ''dano'' None None None (- 1) ''palavra''
     = Inr [(costa, - 16), (silva, - 10), (costa_e_silva, - 4)]
   \<and> \<not> int (length [(costa, - 16 :: real), (silva, - 10), (costa_e_silva, - 4)]) \<le> - 1"
proof -
  have "search offline three ''dano'' None None None (- 1) ''palavra''
          = Inr [(costa, - 16), (silva, - 10), (costa_e_silva, - 4)]"
    by (simp add: search_def build_filters_def given_def fts_match_def selected_def
        List.map_filter_def sql_limit_def infix_substring_def upper_char_def ex_defs)
  then show ?thesis by simp
qed




section \<open>The sync loop\<close>

lemma extends_refl [simp]: "extends c c"
  by (simp add: extends_def)

lemma extends_trans: "extends a b \<Longrightarrow> extends b c \<Longrightarrow> extends a c"
proof -
  assume ab: "extends a b" and bc: "extends b c"
  from ab have la: "length (requests a) \<le> length (requests b)"
    unfolding extends_def by (metis length_take min.cobounded2 min.commute)
  from ab bc have "take (length (requests a)) (requests c)
      = take (length (requests a)) (take (length (requests b)) (requests c))"
    using la by (simp add: min_def)
  also from bc have "\<dots> = take (length (requests a)) (requests b)"
    by (simp add: extends_def)
  also from ab have "\<dots> = requests a"
    by (simp add: extends_def)
  finally show ?thesis
    using ab bc unfolding extends_def by blast
qed

lemma extends_append:
  "requests c' = requests c @ sent \<Longrightarrow> acordaos c' = acordaos c \<Longrightarrow> sync_state c' = sync_state c
     \<Longrightarrow> extends c c'"
  by (simp add: extends_def markers_def)

lemma extends_sent:
  "extends a b \<Longrightarrow> extends b c \<Longrightarrow> set (sent_between a b) \<subseteq> set (sent_between a c)"
proof -
  assume ab: "extends a b" and bc: "extends b c"
  from ab obtain x where x: "requests b = requests a @ x"
    unfolding extends_def by (metis append_take_drop_id)
  from bc obtain y where y: "requests c = requests b @ y"
    unfolding extends_def by (metis append_take_drop_id)
  show ?thesis
    by (simp add: sent_between_def x y)
qed

lemma attempts_frame:
  "attempts W rq n conn = (c', r) \<Longrightarrow>
     acordaos c' = acordaos conn \<and> sync_state c' = sync_state conn \<and> files c' = files conn
     \<and> (\<exists>sent. requests c' = requests conn @ sent \<and> (0 < n \<longrightarrow> rq \<in> set sent))"
proof (induction n arbitrary: conn c' r)
  case 0
  then show ?case by auto
next
  case (Suc n)
  let ?c = "conn\<lparr>requests := requests conn @ [rq]\<rparr>"
  show ?case
  proof (cases "attempts W rq n ?c")
    case (Pair c2 r2)
    from Suc.IH [OF Pair] Suc.prems Pair show ?thesis
      by (auto simp: Let_def split: outcome.splits if_splits)
  qed
qed

lemma stream_attempts_frame:
  "stream_attempts W url zp n conn = (c', r) \<Longrightarrow>
     acordaos c' = acordaos conn \<and> sync_state c' = sync_state conn
     \<and> (\<exists>sent. requests c' = requests conn @ sent \<and> (0 < n \<longrightarrow> Get url \<in> set sent))"
proof (induction n arbitrary: conn c' r)
  case 0
  then show ?case by auto
next
  case (Suc n)
  let ?c = "conn\<lparr>requests := requests conn @ [Get url]\<rparr>"
  show ?case
  proof (cases "stream_attempts W url zp n ?c")
    case (Pair c2 r2)
    from Suc.IH [OF Pair] Suc.prems Pair show ?thesis
      by (auto simp: Let_def split: outcome.splits if_splits)
  qed
qed

lemma download_json_frame:
  "download_json W url conn = (c', r) \<Longrightarrow>
     acordaos c' = acordaos conn \<and> sync_state c' = sync_state conn \<and> files c' = files conn
     \<and> (\<exists>sent. requests c' = requests conn @ sent \<and> Get url \<in> set sent)"
  using attempts_frame [of W "Get url" MAX_RETRIES conn]
  by (auto simp: download_json_def request_with_retry_def MAX_RETRIES_def
           split: prod.splits sum.splits body.splits)

lemma get_dataset_resources_frame:
  "get_dataset_resources W ds conn = (c', r) \<Longrightarrow>
     acordaos c' = acordaos conn \<and> sync_state c' = sync_state conn \<and> files c' = files conn
     \<and> (\<exists>sent. requests c' = requests conn @ sent)"
  using attempts_frame [of W "PackageShow ds" MAX_RETRIES conn]
  by (auto simp: get_dataset_resources_def request_with_retry_def MAX_RETRIES_def
           split: prod.splits sum.splits body.splits)

lemma download_and_extract_zip_frame:
  "download_and_extract_zip W url ds conn = (c', r) \<Longrightarrow>
     acordaos c' = acordaos conn \<and> sync_state c' = sync_state conn
     \<and> (\<exists>sent. requests c' = requests conn @ sent \<and> Get url \<in> set sent)"
  using stream_attempts_frame [of W url "DATA_DIR @ ''/'' @ ds @ ''/archive.zip''" MAX_RETRIES conn]
  by (auto simp: download_and_extract_zip_def MAX_RETRIES_def Let_def
           split: prod.splits sum.splits body.splits option.splits)

lemma ids_insert_or_replace:
  "acordao_id ` set (insert_or_replace tbl x) = insert (acordao_id x) (acordao_id ` set tbl)"
  by (auto simp: insert_or_replace_def)

lemma executemany_ids:
  "executemany tbl rs = (tbl', r) \<Longrightarrow> acordao_id ` set tbl \<subseteq> acordao_id ` set tbl'"
proof (induction rs arbitrary: tbl)
  case Nil
  then show ?case by auto
next
  case (Cons x xs)
  show ?case
  proof (cases "list_all bindable (astuple x)")
    case True
    with Cons.prems have "executemany (insert_or_replace tbl x) xs = (tbl', r)" by simp
    from Cons.IH [OF this] show ?thesis
      unfolding ids_insert_or_replace by blast
  next
    case False
    with Cons.prems show ?thesis by auto
  qed
qed

lemma upsert_acordaos_fields:
  "upsert_acordaos conn records = (c', r) \<Longrightarrow>
     sync_state c' = sync_state conn \<and> files c' = files conn \<and> requests c' = requests conn
     \<and> tables c' = tables conn
     \<and> acordao_id ` set (acordaos conn) \<subseteq> acordao_id ` set (acordaos c')"
  by (cases "records = []")
     (auto simp: upsert_acordaos_def split: prod.splits sum.splits dest!: executemany_ids)

lemma upsert_acordaos_frame:
  "upsert_acordaos conn records = (c', r) \<Longrightarrow>
     extends conn c' \<and> sync_state c' = sync_state conn \<and> files c' = files conn
     \<and> requests c' = requests conn"
  using upsert_acordaos_fields [of conn records c' r] by (simp add: extends_def markers_def)

lemma unlink_frame [simp]:
  "acordaos (unlink c p) = acordaos c" "sync_state (unlink c p) = sync_state c"
  "requests (unlink c p) = requests c"
  by (simp_all add: unlink_def)

lemma is_synced_markers:
  "is_synced c ds rid = Inr True \<longleftrightarrow> (\<exists>r. rid = PStr r \<and> (ds, r) \<in> markers c)"
  by (cases rid) (force simp: is_synced_def markers_def list_ex_iff)+

lemma is_synced_bindable: "bindable rid \<Longrightarrow> \<exists>b. is_synced c ds rid = Inr b"
  by (cases rid) (auto simp: is_synced_def)

lemma markers_mark:
  "markers (c\<lparr>sync_state := filter (\<lambda>(d', r, n). \<not> (d' = d \<and> r = rid)) (sync_state c)
                               @ [(d, rid, n)]\<rparr>) = insert (d, rid) (markers c)"
  by (auto simp: markers_def case_prod_beta image_iff)

lemma mark_synced_frame:
  "mark_synced c d i n = (c', r) \<Longrightarrow>
     acordaos c' = acordaos c \<and> requests c' = requests c \<and> files c' = files c
     \<and> markers c \<subseteq> markers c' \<and> (r = Inr () \<longrightarrow> is_synced c' d i = Inr True)"
proof (cases "bindable i \<and> bindable n")
  case False
  assume "mark_synced c d i n = (c', r)"
  with False show ?thesis by (auto simp: mark_synced_def)
next
  case True
  assume a: "mark_synced c d i n = (c', r)"
  show ?thesis
  proof (cases i)
    case (PStr rid)
    with a True have c': "c' = c\<lparr>sync_state := filter (\<lambda>(d', r, n). \<not> (d' = d \<and> r = rid)) (sync_state c)
                               @ [(d, rid, n)]\<rparr>"
      by (auto simp: mark_synced_def)
    have m: "markers c' = insert (d, rid) (markers c)"
      unfolding c' by (rule markers_mark)
    have f: "acordaos c' = acordaos c" "requests c' = requests c" "files c' = files c"
      by (simp_all add: c')
    have "markers c \<subseteq> markers c'" "is_synced c' d i = Inr True"
      using m PStr by (auto simp: is_synced_markers)
    with f show ?thesis by simp
  qed (use a True in \<open>auto simp: mark_synced_def\<close>)
qed

lemma mark_synced_extends: "mark_synced c d i n = (c', r) \<Longrightarrow> extends c c'"
  using mark_synced_frame [of c d i n c' r] by (simp add: extends_def)

lemma sent_between_append: "requests c' = requests c @ sent \<Longrightarrow> sent_between c c' = sent"
  by (simp add: sent_between_def)

lemma get_by_id_ids: "get_by_id c i \<noteq> None \<longleftrightarrow> i \<in> acordao_id ` set (acordaos c)"
  by (auto simp: get_by_id_def find_None_iff)

lemma in_store_mono: "in_store c records \<Longrightarrow> extends c c' \<Longrightarrow> in_store c' records"
  unfolding in_store_def list_all_iff get_by_id_ids extends_def by blast

lemma payload_in_store_mono:
  "payload_in_store W c raw \<Longrightarrow> extends c c' \<Longrightarrow> payload_in_store W c' raw"
  by (cases "normalize W raw") (auto simp: payload_in_store_def intro: in_store_mono)

lemma upsert_in_store: "upsert_acordaos conn records = (c', Inr n) \<Longrightarrow> in_store c' records"
proof -
  assume "upsert_acordaos conn records = (c', Inr n)"
  from upsert_acordaos_Inr(1) [OF this]
  have "acordao_id ` set records \<subseteq> acordao_id ` set (acordaos c')"
    by (simp add: ids_foldl_ior)
  then show ?thesis
    unfolding in_store_def list_all_iff get_by_id_ids by blast
qed

lemma is_synced_mono: "is_synced c ds rid = Inr True \<Longrightarrow> extends c c' \<Longrightarrow> is_synced c' ds rid = Inr True"
  unfolding is_synced_markers extends_def by blast

lemma consume_files_extends:
  "consume_files W fs conn t = (c', t', r) \<Longrightarrow>
     extends conn c' \<and> requests c' = requests conn"
proof (induction fs arbitrary: conn t)
  case Nil
  then show ?case by simp
next
  case (Cons f fs)
  show ?case
  proof (cases "parse_json_file conn f")
    case (Inl e)
    with Cons.prems show ?thesis by simp
  next
    case (Inr raw)
    show ?thesis
    proof (cases "normalize W raw")
      case (Inl e)
      with Cons.prems \<open>parse_json_file conn f = Inr raw\<close> show ?thesis by simp
    next
      case norm: (Inr records)
      obtain c1 r1 where up: "upsert_acordaos conn records = (c1, r1)"
        by (cases "upsert_acordaos conn records")
      note fr = upsert_acordaos_frame [OF up]
      show ?thesis
      proof (cases r1)
        case (Inl e)
        with Cons.prems Inr norm up fr show ?thesis by simp
      next
        case (Inr n)
        with Cons.prems \<open>parse_json_file conn f = Inr raw\<close> norm up
        have "consume_files W fs (unlink c1 f) (t + n) = (c', t', r)" by simp
        from Cons.IH [OF this]
        have a: "extends (unlink c1 f) c'" and b: "requests c' = requests (unlink c1 f)" by simp_all
        have "extends c1 (unlink c1 f)" by (simp add: extends_def markers_def)
        with a fr have "extends conn c'" by (blast intro: extends_trans)
        with b fr show ?thesis by simp
      qed
    qed
  qed
qed

text \<open>
  When the loop over the extracted files ends without an exception, every file held an array
  of records, and the records of every file are in the store.
\<close>

lemma consume_files_delivers:
  "consume_files W fs conn t = (c', t', Inr u) \<Longrightarrow>
     list_all (\<lambda>f. case files conn f of
                      Some (Records raw) \<Rightarrow> payload_in_store W c' raw
                    | _ \<Rightarrow> False) fs"
proof (induction fs arbitrary: conn t)
  case Nil
  then show ?case by simp
next
  case (Cons f fs)
  from Cons.prems obtain raw where p: "parse_json_file conn f = Inr raw"
    by (cases "parse_json_file conn f") auto
  then have ff: "files conn f = Some (Records raw)"
    by (auto simp: parse_json_file_def split: option.splits body.splits)
  from Cons.prems p obtain records where n: "normalize W raw = Inr records"
    by (cases "normalize W raw") auto
  obtain c1 r1 where up: "upsert_acordaos conn records = (c1, r1)"
    by (cases "upsert_acordaos conn records")
  from Cons.prems p n up obtain k where k: "r1 = Inr k"
    by (cases r1) auto
  from Cons.prems p n up k
  have rec: "consume_files W fs (unlink c1 f) (t + k) = (c', t', Inr u)" by simp
  have fl: "files c1 = files conn"
    using upsert_acordaos_frame [OF up] by simp
  have "in_store c1 records"
    using up k by (auto intro: upsert_in_store)
  moreover have "extends c1 (unlink c1 f)"
    by (simp add: extends_def markers_def)
  moreover have "extends (unlink c1 f) c'"
    using consume_files_extends [OF rec] by simp
  ultimately have "in_store c' records"
    by (blast intro: in_store_mono)
  then have hd: "payload_in_store W c' raw"
    by (simp add: payload_in_store_def n)
  have tl: "(case files (unlink c1 f) g of
               Some (Records raw) \<Rightarrow> payload_in_store W c' raw | _ \<Rightarrow> False)
            \<Longrightarrow> (case files conn g of
               Some (Records raw) \<Rightarrow> payload_in_store W c' raw | _ \<Rightarrow> False)" for g
    by (cases "g = f") (simp_all add: unlink_def fl)
  from Cons.IH [OF rec] tl
  have "list_all (\<lambda>f. case files conn f of
                      Some (Records raw) \<Rightarrow> payload_in_store W c' raw
                    | _ \<Rightarrow> False) fs"
    unfolding list_all_iff by blast
  with hd ff show ?case by simp
qed

lemma files_in_store_mono:
  assumes e: "extends c1 c2"
      and "list_all (\<lambda>f. case fls f of Some (Records raw) \<Rightarrow> payload_in_store W c1 raw
                          | _ \<Rightarrow> False) fs"
  shows "list_all (\<lambda>f. case fls f of Some (Records raw) \<Rightarrow> payload_in_store W c2 raw
                        | _ \<Rightarrow> False) fs"
proof -
  have p: "payload_in_store W c1 raw \<Longrightarrow> payload_in_store W c2 raw" for raw
    by (rule payload_in_store_mono [OF _ e])
  have q: "(case b of Some (Records raw) \<Rightarrow> payload_in_store W c1 raw | _ \<Rightarrow> False)
           \<Longrightarrow> (case b of Some (Records raw) \<Rightarrow> payload_in_store W c2 raw | _ \<Rightarrow> False)"
    for b :: "body option"
    using p by (auto split: option.splits body.splits)
  from assms(2) show ?thesis
    unfolding list_all_iff using q by blast
qed

lemma delivered_mono:
  assumes "delivered W ds rid fmt url c c1" and e: "extends c1 c2"
  shows "delivered W ds rid fmt url c c2"
proof -
  have p: "payload_in_store W c1 raw \<Longrightarrow> payload_in_store W c2 raw" for raw
    by (rule payload_in_store_mono [OF _ e])
  note l = files_in_store_mono [OF e]
  from assms(1) have m: "is_synced c2 ds rid = Inr True"
    using e by (auto simp: delivered_def intro: is_synced_mono)
  from assms(1) m p l show ?thesis
    by (auto simp: delivered_def split: pyval.splits prod.splits sum.splits if_splits)
qed

text \<open>The body of the \<open>try\<close> statement, whatever it returns or raises.\<close>

lemma try_body_frame:
  assumes tb: "try_body W ds rid rn fmt url conn t = (c', t', r)"
  shows "extends conn c'"
    and "\<forall>u. url = PStr u \<longrightarrow> Get u \<in> set (sent_between conn c')"
    and "r = Inr () \<longrightarrow> delivered W ds rid fmt url conn c'"
proof -
  have "extends conn c' \<and> (\<forall>u. url = PStr u \<longrightarrow> Get u \<in> set (sent_between conn c'))
        \<and> (r = Inr () \<longrightarrow> delivered W ds rid fmt url conn c')"
  proof (cases "\<exists>u. url = PStr u")
    case False
    with tb have "c' = conn" "r = Inl TypeError"
      by (cases url; simp add: try_body_def)+
    with False show ?thesis by simp
  next
    case True
    then obtain u where u: "url = PStr u" by blast
    show ?thesis
    proof (cases "fmt = ''ZIP''")
      case True
      obtain c1 r1 where dl: "download_and_extract_zip W u ds conn = (c1, r1)"
        by (cases "download_and_extract_zip W u ds conn")
      from download_and_extract_zip_frame [OF dl] obtain sent where
        fr: "acordaos c1 = acordaos conn" "sync_state c1 = sync_state conn"
            "requests c1 = requests conn @ sent" "Get u \<in> set sent"
        by blast
      have e1: "extends conn c1"
        using fr by (simp add: extends_append)
      have s1: "Get u \<in> set (sent_between conn c1)"
        using fr by (simp add: sent_between_append)
      show ?thesis
      proof (cases r1)
        case (Inl e)
        with tb True u dl have "c' = c1" "r = Inl e" by (simp_all add: try_body_def)
        with e1 s1 u show ?thesis by simp
      next
        case (Inr fs)
        obtain c2 t2 r2 where cf: "consume_files W fs c1 t = (c2, t2, r2)"
          by (cases "consume_files W fs c1 t")
        from consume_files_extends [OF cf]
        have e2: "extends c1 c2" and q2: "requests c2 = requests c1" by simp_all
        show ?thesis
        proof (cases r2)
          case (Inl e)
          with tb True u dl Inr cf have "c' = c2" "r = Inl e" by (simp_all add: try_body_def)
          moreover have "extends conn c2" using e1 e2 by (rule extends_trans)
          moreover have "Get u \<in> set (sent_between conn c2)"
            using fr q2 by (simp add: sent_between_def)
          ultimately show ?thesis using u by simp
        next
          case ok: (Inr v)
          obtain c3 r3 where mk: "mark_synced c2 ds rid rn = (c3, r3)"
            by (cases "mark_synced c2 ds rid rn")
          from tb True u dl Inr cf ok mk have c': "c' = c3" and r: "r = r3"
            by (simp_all add: try_body_def)
          note m = mark_synced_frame [OF mk]
          have e3: "extends c2 c3" using mk by (rule mark_synced_extends)
          have ext: "extends conn c3" using e1 e2 e3 by (blast intro: extends_trans)
          have snt: "Get u \<in> set (sent_between conn c3)"
            using fr q2 m by (simp add: sent_between_def)
          have del: "delivered W ds rid fmt url conn c3" if "r3 = Inr ()"
          proof -
            from cf ok have "consume_files W fs c1 t = (c2, t2, Inr v)" by simp
            from consume_files_delivers [OF this]
            have "list_all (\<lambda>f. case files c1 f of
                      Some (Records raw) \<Rightarrow> payload_in_store W c2 raw
                    | _ \<Rightarrow> False) fs" .
            then have a: "list_all (\<lambda>f. case files c1 f of
                      Some (Records raw) \<Rightarrow> payload_in_store W c3 raw
                    | _ \<Rightarrow> False) fs"
              by (rule files_in_store_mono [OF e3])
            have b: "is_synced c3 ds rid = Inr True" using m that by simp
            from a b show ?thesis
              by (simp add: delivered_def u True dl Inr)
          qed
          from ext snt del c' r u show ?thesis by simp
        qed
      qed
    next
      case False
      obtain c1 r1 where dl: "download_json W u conn = (c1, r1)"
        by (cases "download_json W u conn")
      from download_json_frame [OF dl] obtain sent where
        fr: "acordaos c1 = acordaos conn" "sync_state c1 = sync_state conn"
            "requests c1 = requests conn @ sent" "Get u \<in> set sent"
        by blast
      have e1: "extends conn c1"
        using fr by (simp add: extends_append)
      have s1: "Get u \<in> set (sent_between conn c1)"
        using fr by (simp add: sent_between_append)
      show ?thesis
      proof (cases r1)
        case (Inl e)
        with tb False u dl have "c' = c1" "r = Inl e" by (simp_all add: try_body_def)
        with e1 s1 u show ?thesis by simp
      next
        case (Inr raw)
        show ?thesis
        proof (cases "normalize W raw")
          case (Inl e)
          with tb False u dl Inr have "c' = c1" "r = Inl e" by (simp_all add: try_body_def)
          with e1 s1 u show ?thesis by simp
        next
          case norm: (Inr records)
          obtain c2 r2 where up: "upsert_acordaos c1 records = (c2, r2)"
            by (cases "upsert_acordaos c1 records")
          note fu = upsert_acordaos_frame [OF up]
          have e2: "extends conn c2" using e1 fu by (blast intro: extends_trans)
          have s2: "Get u \<in> set (sent_between conn c2)"
            using fr fu by (simp add: sent_between_def)
          show ?thesis
          proof (cases r2)
            case (Inl e)
            with tb False u dl Inr norm up have "c' = c2" "r = Inl e"
              by (simp_all add: try_body_def)
            with e2 s2 u show ?thesis by simp
          next
            case ok: (Inr k)
            obtain c3 r3 where mk: "mark_synced c2 ds rid rn = (c3, r3)"
              by (cases "mark_synced c2 ds rid rn")
            from tb False u dl Inr norm up ok mk have c': "c' = c3" and r: "r = r3"
              by (simp_all add: try_body_def)
            note m = mark_synced_frame [OF mk]
            have e3: "extends c2 c3" using mk by (rule mark_synced_extends)
            have ext: "extends conn c3" using e2 e3 by (rule extends_trans)
            have snt: "Get u \<in> set (sent_between conn c3)"
              using fr fu m by (simp add: sent_between_def)
            have del: "delivered W ds rid fmt url conn c3" if "r3 = Inr ()"
            proof -
              have "in_store c2 records"
                using up ok by (auto intro: upsert_in_store)
              then have "in_store c3 records"
                using e3 by (rule in_store_mono)
              moreover have "is_synced c3 ds rid = Inr True" using m that by simp
              ultimately show ?thesis
                by (simp add: delivered_def u False dl Inr payload_in_store_def norm)
            qed
            from ext snt del c' r u show ?thesis by simp
          qed
        qed
      qed
    qed
  qed
  then show "extends conn c'"
    and "\<forall>u. url = PStr u \<longrightarrow> Get u \<in> set (sent_between conn c')"
    and "r = Inr () \<longrightarrow> delivered W ds rid fmt url conn c'"
    by simp_all
qed

lemma is_data_resource_format:
  "is_data_resource res = Inr True \<Longrightarrow> \<exists>fmt. py_upper (dict_get res ''format'' (PStr [])) = Inr fmt"
  by (cases "py_upper (dict_get res ''format'' (PStr []))") (simp_all add: is_data_resource_def)

lemma filter_data_resources_set:
  "filter_data_resources rs = Inr data \<Longrightarrow> \<forall>res\<in>set data. is_data_resource res = Inr True"
proof (induction rs arbitrary: data)
  case Nil
  then show ?case by simp
next
  case (Cons r rs)
  from Cons.prems obtain keep where k: "is_data_resource r = Inr keep"
    by (cases "is_data_resource r") auto
  from Cons.prems k obtain rest where f: "filter_data_resources rs = Inr rest"
    by (cases "filter_data_resources rs") auto
  from Cons.prems k f have "data = (if keep then r # rest else rest)" by simp
  with Cons.IH [OF f] k show ?case by (cases keep) simp_all
qed

lemma sync_resources_Cons:
  assumes "map_of res ''id'' = Some rid"
      and "py_upper (dict_get res ''format'' (PStr [])) = Inr fmt"
      and "map_of res ''url'' = Some url"
  shows "sync_resources W ds force (res # rest) conn t =
           (case (if force then Inr False else is_synced conn ds rid) of
              Inl e \<Rightarrow> (conn, Inl e)
            | Inr synced \<Rightarrow>
                if synced then sync_resources W ds force rest conn t
                else case try_body W ds rid (dict_get res ''name'' (PStr [])) fmt url conn t of
                       (c', t', r) \<Rightarrow> sync_resources W ds force rest c' t')"
  using assms by simp

lemma sync_resources_skip:
  assumes "map_of res ''id'' = Some rid"
      and "py_upper (dict_get res ''format'' (PStr [])) = Inr fmt"
      and "map_of res ''url'' = Some url"
      and "\<not> force" "is_synced conn ds rid = Inr True"
  shows "sync_resources W ds force (res # rest) conn t = sync_resources W ds force rest conn t"
  unfolding sync_resources_Cons [OF assms(1-3)] using assms(4,5) by simp

lemma sync_resources_try:
  assumes "map_of res ''id'' = Some rid"
      and "py_upper (dict_get res ''format'' (PStr [])) = Inr fmt"
      and "map_of res ''url'' = Some url"
      and "force \<or> is_synced conn ds rid = Inr False"
      and "try_body W ds rid (dict_get res ''name'' (PStr [])) fmt url conn t = (c', t', r)"
  shows "sync_resources W ds force (res # rest) conn t = sync_resources W ds force rest c' t'"
  unfolding sync_resources_Cons [OF assms(1-3)] using assms(4,5) by auto

text \<open>
  One turn of the loop, for a data resource that has its keys: the resource is passed over
  or attempted, and the loop goes on with the resources after it, whatever the body of the
  \<open>try\<close> statement did.
\<close>

lemma sync_resources_turn:
  assumes wf: "well_formed force res" and dr: "is_data_resource res = Inr True"
  shows "\<exists>c2 t2. extends c c2
           \<and> (\<forall>post. sync_resources W ds force (res # post) c t
                        = sync_resources W ds force post c2 t2)
           \<and> (\<forall>post c'. extends c2 c' \<longrightarrow>
                 (if \<not> force \<and> res_marked c ds res
                  then passed_over W ds force res post c t
                  else attempted W ds force res post c t c'))"
proof -
  from wf obtain rid url where
    k: "map_of res ''id'' = Some rid" "map_of res ''url'' = Some url" and b: "force \<or> bindable rid"
    by (auto simp: well_formed_def split: option.splits)
  from is_data_resource_format [OF dr] obtain fmt where
    f: "py_upper (dict_get res ''format'' (PStr [])) = Inr fmt" by blast
  show ?thesis
  proof (cases "\<not> force \<and> is_synced c ds rid = Inr True")
    case True
    then have m: "res_marked c ds res" by (simp add: res_marked_def k)
    have step: "sync_resources W ds force (res # post) c t = sync_resources W ds force post c t"
      for post
      using True by (intro sync_resources_skip [OF k(1) f k(2)]) simp_all
    then have "passed_over W ds force res post c t" for post
      by (simp only: passed_over_def)
    then have "if \<not> force \<and> res_marked c ds res
               then passed_over W ds force res post c t
               else attempted W ds force res post c t c'" for post c'
      using True m by (simp only: if_True simp_thms)
    moreover have "extends c c" by simp
    ultimately show ?thesis
      using step by blast
  next
    case False
    then have nm: "\<not> (\<not> force \<and> res_marked c ds res)" by (simp add: res_marked_def k)
    from False b have reach: "force \<or> is_synced c ds rid = Inr False"
      using is_synced_bindable [of rid c ds] by (cases force) auto
    obtain c2 t2 r where
      tb: "try_body W ds rid (dict_get res ''name'' (PStr [])) fmt url c t = (c2, t2, r)"
      by (cases "try_body W ds rid (dict_get res ''name'' (PStr [])) fmt url c t")
    note fr = try_body_frame [OF tb]
    have step: "sync_resources W ds force (res # post) c t = sync_resources W ds force post c2 t2"
      for post
      by (rule sync_resources_try [OF k(1) f k(2) reach tb])
    have att: "attempted W ds force res post c t c'" if e: "extends c2 c'" for post c'
    proof -
      have "r = Inr () \<longrightarrow> delivered W ds rid fmt url c c'"
        using fr(3) e by (blast intro: delivered_mono)
      with k f tb step [of post] fr(2) e show ?thesis
        unfolding attempted_def by blast
    qed
    have "if \<not> force \<and> res_marked c ds res
          then passed_over W ds force res post c t
          else attempted W ds force res post c t c'" if "extends c2 c'" for post c'
      unfolding if_not_P [OF nm] using that by (rule att)
    with fr(1) step show ?thesis by blast
  qed
qed

lemma sync_resources_prefix:
  assumes "\<forall>res\<in>set pre. well_formed force res \<and> is_data_resource res = Inr True"
  shows "\<exists>c1 t1. sync_resources W ds force pre c t = (c1, Inr t1) \<and> extends c c1
           \<and> (\<forall>rs. sync_resources W ds force (pre @ rs) c t = sync_resources W ds force rs c1 t1)"
  using assms
proof (induction pre arbitrary: c t)
  case Nil
  show ?case by simp
next
  case (Cons res pre)
  from Cons.prems have wf: "well_formed force res" and dr: "is_data_resource res = Inr True"
    and rest: "\<forall>res\<in>set pre. well_formed force res \<and> is_data_resource res = Inr True"
    by simp_all
  from sync_resources_turn [OF wf dr, of c W ds t] obtain c2 t2 where
    e: "extends c c2" and
    step: "\<And>post. sync_resources W ds force (res # post) c t = sync_resources W ds force post c2 t2"
    by blast
  from Cons.IH [OF rest, of c2 t2] obtain c1 t1 where
    a: "sync_resources W ds force pre c2 t2 = (c1, Inr t1)" and e1: "extends c2 c1" and
    b: "\<And>rs. sync_resources W ds force (pre @ rs) c2 t2 = sync_resources W ds force rs c1 t1"
    by blast
  have "sync_resources W ds force (res # pre) c t = (c1, Inr t1)"
    using step [of pre] a by simp
  moreover have "extends c c1" using e e1 by (rule extends_trans)
  moreover have "sync_resources W ds force ((res # pre) @ rs) c t
                   = sync_resources W ds force rs c1 t1" for rs
    using step [of "pre @ rs"] b [of rs] by simp
  ultimately show ?case by blast
qed

text \<open>
  The loop over the data resources of one dataset: it returns its count, and every resource
  has its turn, whatever the turns before it raised.
\<close>

lemma sync_resources_isolation:
  assumes wf: "\<forall>res\<in>set rs. well_formed force res \<and> is_data_resource res = Inr True"
  shows "\<exists>c' n. sync_resources W ds force rs c t = (c', Inr n) \<and> extends c c'
           \<and> (\<forall>pre res post cf. rs = pre @ res # post \<and> extends c' cf \<longrightarrow>
                 (\<exists>c1 t1. sync_resources W ds force pre c t = (c1, Inr t1)
                     \<and> (if \<not> force \<and> res_marked c1 ds res
                        then passed_over W ds force res post c1 t1
                        else attempted W ds force res post c1 t1 cf)))"
proof -
  from sync_resources_prefix [OF wf, of W ds c t] obtain c' n where
    run: "sync_resources W ds force rs c t = (c', Inr n)" and ext: "extends c c'"
    by blast
  have "\<exists>c1 t1. sync_resources W ds force pre c t = (c1, Inr t1)
           \<and> (if \<not> force \<and> res_marked c1 ds res
              then passed_over W ds force res post c1 t1
              else attempted W ds force res post c1 t1 cf)"
    if split: "rs = pre @ res # post" and cf: "extends c' cf" for pre res post cf
  proof -
    from wf split have
      wpre: "\<forall>res\<in>set pre. well_formed force res \<and> is_data_resource res = Inr True" and
      wres: "well_formed force res" "is_data_resource res = Inr True" and
      wpost: "\<forall>res\<in>set post. well_formed force res \<and> is_data_resource res = Inr True"
      by simp_all
    from sync_resources_prefix [OF wpre, of W ds c t] obtain c1 t1 where
      a: "sync_resources W ds force pre c t = (c1, Inr t1)" and
      b: "\<And>rs. sync_resources W ds force (pre @ rs) c t = sync_resources W ds force rs c1 t1"
      by blast
    from sync_resources_turn [OF wres, of c1 W ds t1] obtain c2 t2 where
      step: "\<And>post. sync_resources W ds force (res # post) c1 t1
                      = sync_resources W ds force post c2 t2" and
      turn: "\<And>post c'. extends c2 c' \<Longrightarrow>
                 (if \<not> force \<and> res_marked c1 ds res
                  then passed_over W ds force res post c1 t1
                  else attempted W ds force res post c1 t1 c')"
      by blast
    from sync_resources_prefix [OF wpost, of W ds c2 t2] obtain c3 t3 where
      d: "sync_resources W ds force post c2 t2 = (c3, Inr t3)" and e3: "extends c2 c3"
      by blast
    have "sync_resources W ds force rs c t = (c3, Inr t3)"
      unfolding split using b [of "res # post"] step [of post] d by simp
    with run have "c3 = c'" by simp
    with e3 cf have "extends c2 cf" by (blast intro: extends_trans)
    from turn [OF this] a show ?thesis by blast
  qed
  with run ext show ?thesis by blast
qed

text \<open>One dataset whose listing is obtained and whose data resources have their keys.\<close>

lemma sync_dataset_run:
  assumes l: "\<forall>c. \<exists>c1. get_dataset_resources W ds c = (c1, Inr resources)"
      and d: "filter_data_resources resources = Inr data_resources"
      and wf: "\<forall>res\<in>set data_resources. well_formed force res"
  shows "\<exists>cb c' n. get_dataset_resources W ds c = (cb, Inr resources) \<and> extends c cb
           \<and> sync_dataset W c ds force = (c', Inr n) \<and> extends cb c'
           \<and> (\<forall>pre res post cf. data_resources = pre @ res # post \<and> extends c' cf \<longrightarrow>
                 (\<exists>c1 t1. sync_resources W ds force pre cb 0 = (c1, Inr t1)
                     \<and> (if \<not> force \<and> res_marked c1 ds res
                        then passed_over W ds force res post c1 t1
                        else attempted W ds force res post c1 t1 cf)))"
proof -
  from l obtain cb where g: "get_dataset_resources W ds c = (cb, Inr resources)" by blast
  from get_dataset_resources_frame [OF g] have e: "extends c cb"
    by (auto intro: extends_append)
  have w: "\<forall>res\<in>set data_resources. well_formed force res \<and> is_data_resource res = Inr True"
    using wf filter_data_resources_set [OF d] by simp
  from sync_resources_isolation [OF w, of W ds cb 0] obtain c' n where
    run: "sync_resources W ds force data_resources cb 0 = (c', Inr n)" and
    ext: "extends cb c'" and
    turns: "\<forall>pre res post cf. data_resources = pre @ res # post \<and> extends c' cf \<longrightarrow>
                 (\<exists>c1 t1. sync_resources W ds force pre cb 0 = (c1, Inr t1)
                     \<and> (if \<not> force \<and> res_marked c1 ds res
                        then passed_over W ds force res post c1 t1
                        else attempted W ds force res post c1 t1 cf))"
    by blast
  have sd: "sync_dataset W c ds force = (c', Inr n)"
  proof (cases "data_resources = []")
    case True
    with run have "c' = cb" "n = 0" by simp_all
    with True g d show ?thesis by (simp add: sync_dataset_def)
  next
    case False
    with g d run show ?thesis by (simp add: sync_dataset_def)
  qed
  from g e sd ext turns show ?thesis by blast
qed

lemma sync_datasets_prefix:
  assumes "\<forall>ds\<in>set dpre. \<forall>c. \<exists>c1. get_dataset_resources W ds c = (c1, Inr (catalogue ds))"
      and "\<forall>ds\<in>set dpre. filter_data_resources (catalogue ds) = Inr (data ds)"
      and "\<forall>ds\<in>set dpre. \<forall>res\<in>set (data ds). well_formed force res"
  shows "\<exists>ca ta. sync_datasets W force dpre c t = (ca, Inr ta) \<and> extends c ca
           \<and> (\<forall>rest. sync_datasets W force (dpre @ rest) c t = sync_datasets W force rest ca ta)"
  using assms
proof (induction dpre arbitrary: c t)
  case Nil
  show ?case by simp
next
  case (Cons ds dpre)
  from Cons.prems have
    l: "\<forall>c. \<exists>c1. get_dataset_resources W ds c = (c1, Inr (catalogue ds))" and
    d: "filter_data_resources (catalogue ds) = Inr (data ds)" and
    wf: "\<forall>res\<in>set (data ds). well_formed force res"
    by simp_all
  from sync_dataset_run [OF l d wf, of c] obtain cb c1 n where
    sd: "sync_dataset W c ds force = (c1, Inr n)" and e: "extends c cb" "extends cb c1"
    by blast
  from Cons.prems have
    "\<forall>ds\<in>set dpre. \<forall>c. \<exists>c1. get_dataset_resources W ds c = (c1, Inr (catalogue ds))"
    "\<forall>ds\<in>set dpre. filter_data_resources (catalogue ds) = Inr (data ds)"
    "\<forall>ds\<in>set dpre. \<forall>res\<in>set (data ds). well_formed force res"
    by simp_all
  from Cons.IH [OF this, of c1 "t + n"] obtain ca ta where
    a: "sync_datasets W force dpre c1 (t + n) = (ca, Inr ta)" and e1: "extends c1 ca" and
    b: "\<And>rest. sync_datasets W force (dpre @ rest) c1 (t + n) = sync_datasets W force rest ca ta"
    by blast
  have "sync_datasets W force (ds # dpre) c t = (ca, Inr ta)"
    using sd a by simp
  moreover have "extends c ca" using e e1 by (blast intro: extends_trans)
  moreover have "sync_datasets W force ((ds # dpre) @ rest) c t = sync_datasets W force rest ca ta"
    for rest
    using sd b [of rest] by simp
  ultimately show ?case by blast
qed

text \<open>
  The loop of \<open>sync_all\<close> over datasets whose listings are obtained: it returns its total,
  and every data resource of every dataset has its turn.
\<close>

lemma sync_datasets_isolation:
  assumes listings:
        "\<forall>ds\<in>set dss. \<forall>c. \<exists>c1. get_dataset_resources W ds c = (c1, Inr (catalogue ds))"
      and data: "\<forall>ds\<in>set dss. filter_data_resources (catalogue ds) = Inr (data ds)"
      and wf: "\<forall>ds\<in>set dss. \<forall>res\<in>set (data ds). well_formed force res"
  shows "\<exists>c' total_records. sync_datasets W force dss c t = (c', Inr total_records)
           \<and> extends c c'
           \<and> (\<forall>dpre ds dpost pre res post.
                 dss = dpre @ ds # dpost \<and> data ds = pre @ res # post \<longrightarrow>
                 (\<exists>ca ta cb c1 t1.
                    sync_datasets W force dpre c t = (ca, Inr ta)
                  \<and> get_dataset_resources W ds ca = (cb, Inr (catalogue ds))
                  \<and> sync_resources W ds force pre cb 0 = (c1, Inr t1)
                  \<and> (if \<not> force \<and> res_marked c1 ds res
                     then passed_over W ds force res post c1 t1
                     else attempted W ds force res post c1 t1 c')))"
proof -
  from sync_datasets_prefix [OF listings data wf, of c t] obtain c' total_records where
    run: "sync_datasets W force dss c t = (c', Inr total_records)" and ext: "extends c c'"
    by blast
  have "\<exists>ca ta cb c1 t1.
                    sync_datasets W force dpre c t = (ca, Inr ta)
                  \<and> get_dataset_resources W ds ca = (cb, Inr (catalogue ds))
                  \<and> sync_resources W ds force pre cb 0 = (c1, Inr t1)
                  \<and> (if \<not> force \<and> res_marked c1 ds res
                     then passed_over W ds force res post c1 t1
                     else attempted W ds force res post c1 t1 c')"
    if split: "dss = dpre @ ds # dpost" and pos: "data ds = pre @ res # post"
    for dpre ds dpost pre res post
  proof -
    from listings data wf split have
      p1: "\<forall>ds\<in>set dpre. \<forall>c. \<exists>c1. get_dataset_resources W ds c = (c1, Inr (catalogue ds))" and
      p2: "\<forall>ds\<in>set dpre. filter_data_resources (catalogue ds) = Inr (data ds)" and
      p3: "\<forall>ds\<in>set dpre. \<forall>res\<in>set (data ds). well_formed force res" and
      l: "\<forall>c. \<exists>c1. get_dataset_resources W ds c = (c1, Inr (catalogue ds))" and
      d: "filter_data_resources (catalogue ds) = Inr (data ds)" and
      w: "\<forall>res\<in>set (data ds). well_formed force res" and
      q1: "\<forall>ds\<in>set dpost. \<forall>c. \<exists>c1. get_dataset_resources W ds c = (c1, Inr (catalogue ds))" and
      q2: "\<forall>ds\<in>set dpost. filter_data_resources (catalogue ds) = Inr (data ds)" and
      q3: "\<forall>ds\<in>set dpost. \<forall>res\<in>set (data ds). well_formed force res"
      by auto
    from sync_datasets_prefix [OF p1 p2 p3, of c t] obtain ca ta where
      a: "sync_datasets W force dpre c t = (ca, Inr ta)" and
      b: "\<And>rest. sync_datasets W force (dpre @ rest) c t = sync_datasets W force rest ca ta"
      by blast
    from sync_dataset_run [OF l d w, of ca] obtain cb cd n where
      g: "get_dataset_resources W ds ca = (cb, Inr (catalogue ds))" and
      sd: "sync_dataset W ca ds force = (cd, Inr n)" and
      turns: "\<forall>pre res post cf. data ds = pre @ res # post \<and> extends cd cf \<longrightarrow>
                 (\<exists>c1 t1. sync_resources W ds force pre cb 0 = (c1, Inr t1)
                     \<and> (if \<not> force \<and> res_marked c1 ds res
                        then passed_over W ds force res post c1 t1
                        else attempted W ds force res post c1 t1 cf))"
      by blast
    from sync_datasets_prefix [OF q1 q2 q3, of cd "ta + n"] obtain ce te where
      r: "sync_datasets W force dpost cd (ta + n) = (ce, Inr te)" and e: "extends cd ce"
      by blast
    have "sync_datasets W force dss c t = (ce, Inr te)"
      unfolding split using b [of "ds # dpost"] sd r by simp
    with run have "ce = c'" by simp
    with e have "extends cd c'" by simp
    with turns pos obtain c1 t1 where
      "sync_resources W ds force pre cb 0 = (c1, Inr t1)"
      "if \<not> force \<and> res_marked c1 ds res
       then passed_over W ds force res post c1 t1
       else attempted W ds force res post c1 t1 c'"
      by blast
    with a g show ?thesis by blast
  qed
  with run ext show ?thesis by blast
qed


lemmas run_defs =
  sync_dataset_def get_dataset_resources_def request_with_retry_def MAX_RETRIES_def
  numeral_3_eq_3 is_data_resource_def py_upper_def py_startswith_def upper_def upper_char_def
  startswith_def endswith_def try_body_def download_json_def download_and_extract_zip_def
  DATA_DIR_def zf_extract_def parse_json_file_def unlink_def
  from_json_def dict_get_def serialise_def py_or_def py_str_def upsert_acordaos_def astuple_def
  insert_or_replace_def mark_synced_def is_synced_def init_db_def
  world_of_def store_of_def new_database_def json_resource_def zip_resource_def
  null_id_resource_def raw_1_def raw_2_def
  raw_without_id_def example_raw_def example_record_def marked_def



lemma from_json_Inl: "from_json W r = Inl e \<Longrightarrow> e = KeyError"
  by (auto simp: from_json_def Let_def split: option.splits)

lemma from_json_no_id: "map_of r ''id'' = None \<Longrightarrow> from_json W r = Inl KeyError"
  by (simp add: from_json_def Let_def)

lemma normalize_no_id:
  "\<exists>r\<in>set raw. map_of r ''id'' = None \<Longrightarrow> normalize W raw = Inl KeyError"
proof (induction raw)
  case Nil
  then show ?case by simp
next
  case (Cons r raw)
  show ?case
  proof (cases "from_json W r")
    case (Inl e)
    then show ?thesis by (simp add: from_json_Inl)
  next
    case (Inr a)
    then have "map_of r ''id'' \<noteq> None"
      using from_json_no_id [of r W] by (cases "map_of r ''id''") simp_all
    with Cons.prems have "\<exists>r\<in>set raw. map_of r ''id'' = None" by auto
    from Cons.IH [OF this] Inr show ?thesis by simp
  qed
qed

text \<open>
  C2, as the code has it. A raw record without \<open>id\<close> makes the normalisation of its whole
  payload raise \<open>KeyError\<close>: for a JSON resource nothing of the payload is upserted, no
  marker is written, and the loop goes on with the next resource; for a file extracted from
  a ZIP resource the loop over the files ends there, with nothing of that file upserted.
\<close>

theorem malformed_record_fails_payload:
  assumes keys: "map_of res ''id'' = Some res_id" "map_of res ''url'' = Some (PStr res_url)"
      and format: "py_upper (dict_get res ''format'' (PStr [])) = Inr res_format"
      and reached: "force \<or> is_synced conn ds res_id = Inr False"
      and json: "res_format \<noteq> ''ZIP''"
      and payload: "download_json W res_url conn = (c1, Inr raw)"
      and malformed: "\<exists>r\<in>set raw. map_of r ''id'' = None"
  shows "normalize W raw = Inl KeyError
       \<and> try_body W ds res_id (dict_get res ''name'' (PStr [])) res_format (PStr res_url)
            conn total_upserted = (c1, total_upserted, Inl KeyError)
       \<and> acordaos c1 = acordaos conn
       \<and> sync_state c1 = sync_state conn
       \<and> sync_resources W ds force (res # rest) conn total_upserted
           = sync_resources W ds force rest c1 total_upserted
       \<and> (\<forall>c f fs. parse_json_file c f = Inr raw \<longrightarrow>
             consume_files W (f # fs) c total_upserted = (c, total_upserted, Inl KeyError))"
proof -
  note n = normalize_no_id [OF malformed, of W]
  have tb: "try_body W ds res_id (dict_get res ''name'' (PStr [])) res_format (PStr res_url)
            conn total_upserted = (c1, total_upserted, Inl KeyError)"
    using json payload n by (simp add: try_body_def)
  have step: "sync_resources W ds force (res # rest) conn total_upserted
           = sync_resources W ds force rest c1 total_upserted"
    by (rule sync_resources_try [OF keys(1) format keys(2) reached tb])
  show ?thesis
    using n tb step download_json_frame [OF payload] by simp
qed

theorem malformed_record_fails_payload_witness:
  "download_json (world_of malformed_answer) ''u1'' (store_of [])
     = (store_of []\<lparr>requests := [Get ''u1'']\<rparr>, Inr [raw_1, raw_without_id])
   \<and> map_of raw_without_id ''id'' = None
   \<and> from_json (world_of malformed_answer) raw_1 = Inr silva
   \<and> normalize (world_of malformed_answer) [raw_1, raw_without_id] = Inl KeyError
   \<and> try_body (world_of malformed_answer) ''ds'' (PStr ''r1'') (PStr ''r1.json'') ''JSON''
        (PStr ''u1'') (store_of []) 0
        = (store_of []\<lparr>requests := [Get ''u1'']\<rparr>, 0, Inl KeyError)
   \<and> acordaos (store_of []\<lparr>requests := [Get ''u1'']\<rparr>) = []
   \<and> sync_state (store_of []\<lparr>requests := [Get ''u1'']\<rparr>) = []"
proof -
  let ?W = "world_of malformed_answer"
  let ?r1 = "json_resource ''r1'' ''u1''"
  have keys: "map_of ?r1 ''id'' = Some (PStr ''r1'')" "map_of ?r1 ''url'' = Some (PStr ''u1'')"
    by (simp_all add: json_resource_def)
  have format: "py_upper (dict_get ?r1 ''format'' (PStr [])) = Inr ''JSON''"
    by (simp add: run_defs)
  have reached: "False \<or> is_synced (store_of []) ''ds'' (PStr ''r1'') = Inr False"
    by (simp add: run_defs)
  have nm: "dict_get ?r1 ''name'' (PStr []) = PStr ''r1.json''"
    by (simp add: run_defs)
  have json: "''JSON'' \<noteq> ''ZIP''"
    by simp
  have payload: "download_json ?W ''u1'' (store_of [])
                   = (store_of []\<lparr>requests := [Get ''u1'']\<rparr>, Inr [raw_1, raw_without_id])"
    by (simp add: run_defs)
  have noid: "map_of raw_without_id ''id'' = None"
    by (simp add: raw_without_id_def)
  then have malformed: "\<exists>r\<in>set [raw_1, raw_without_id]. map_of r ''id'' = None"
    by simp
  have ok: "from_json ?W raw_1 = Inr silva"
    by (simp add: run_defs silva_def)
  from malformed_record_fails_payload [OF keys format reached json payload malformed, of 0 "[]"]
    payload noid ok nm
  show ?thesis by (simp add: store_of_def)
qed

text \<open>
  C2, as the specification has it, fails: the payload at \<open>u1\<close> holds the well-formed record
  \<open>1\<close> and a record without \<open>id\<close>; after the run the store has the record of the other
  resource only, record \<open>1\<close> is not there, and the resource \<open>r1\<close> has no marker.
\<close>

theorem malformed_record_counterexample:
  "download_json (world_of malformed_answer) ''u1''
      (fst (get_dataset_resources (world_of malformed_answer) ''ds'' (store_of [])))
     = (fst (download_json (world_of malformed_answer) ''u1''
          (fst (get_dataset_resources (world_of malformed_answer) ''ds'' (store_of [])))),
        Inr [raw_1, raw_without_id])
   \<and> from_json (world_of malformed_answer) raw_1 = Inr silva
   \<and> map acordao_id
        (acordaos (fst (sync_dataset (world_of malformed_answer) (store_of []) ''ds'' False)))
        = [''2'']
   \<and> get_by_id (fst (sync_dataset (world_of malformed_answer) (store_of []) ''ds'' False)) ''1''
        = None
   \<and> sync_state (fst (sync_dataset (world_of malformed_answer) (store_of []) ''ds'' False))
        = [(''ds'', ''r2'', PStr ''r2.json'')]"
  by (simp add: run_defs silva_def get_by_id_def)

text \<open>
  C3 on the code. The listing of the first dataset cannot be reached: after three attempts
  \<open>TransportError\<close> leaves \<open>get_dataset_resources\<close>, \<open>sync_dataset\<close>, \<open>sync_all\<close> and the
  command \<open>sync\<close>; no request is made for any of the nine other datasets, although the
  second one alone syncs two records.
\<close>

theorem listing_failure_aborts_run:
  "sync_all (world_of listing_down_answer) (store_of []) None False
     = (store_of []\<lparr>requests := [PackageShow ''espelhos-de-acordaos-corte-especial'',
                                  PackageShow ''espelhos-de-acordaos-corte-especial'',
                                  PackageShow ''espelhos-de-acordaos-corte-especial'']\<rparr>,
        Inl TransportError)
   \<and> snd (sync (world_of listing_down_answer) (store_of []) None False) = Inl TransportError
   \<and> snd (sync_all (world_of listing_down_answer) (store_of [])
             (Some ''espelhos-de-acordaos-primeira-secao'') False) = Inr 2"
proof -
  have a: "sync_all (world_of listing_down_answer) (store_of []) None False
     = (store_of []\<lparr>requests := [PackageShow ''espelhos-de-acordaos-corte-especial'',
                                  PackageShow ''espelhos-de-acordaos-corte-especial'',
                                  PackageShow ''espelhos-de-acordaos-corte-especial'']\<rparr>,
        Inl TransportError)"
    by (simp add: sync_all_def DATASETS_def run_defs)
  have b: "snd (sync (world_of listing_down_answer) (store_of []) None False) = Inl TransportError"
    by (simp add: sync_def a)
  have c: "snd (sync_all (world_of listing_down_answer) (store_of [])
             (Some ''espelhos-de-acordaos-primeira-secao'') False) = Inr 2"
    by (simp add: sync_all_def run_defs)
  from a b c show ?thesis by (intro conjI)
qed

text \<open>
  C8 on the code. The archive of the resource \<open>r1\<close> has two members; the record of the first
  has no \<open>id\<close>. The normalisation raises before \<open>unlink\<close> is reached: after the run, which
  goes on with \<open>r2\<close>, both extracted files are still in \<open>data/ds\<close>.
\<close>

theorem extracted_files_left_behind:
  "snd (sync_dataset (world_of zip_answer) (store_of []) ''ds'' False) = Inr 1
   \<and> files (fst (sync_dataset (world_of zip_answer) (store_of []) ''ds'' False)) ''data/ds/a.json''
        = Some (Records [raw_without_id])
   \<and> files (fst (sync_dataset (world_of zip_answer) (store_of []) ''ds'' False)) ''data/ds/b.json''
        = Some (Records [raw_1])
   \<and> files (fst (sync_dataset (world_of zip_answer) (store_of []) ''ds'' False))
        ''data/ds/archive.zip'' = None
   \<and> requests (fst (sync_dataset (world_of zip_answer) (store_of []) ''ds'' False))
        = [PackageShow ''ds'', Get ''u1'', Get ''u2'']"
  by (simp add: run_defs)

lemma clear_sync_state_scope:
  assumes t: "tables conn"
      and scope: "datasets = (case dataset of
                                Some d \<Rightarrow> if d \<noteq> [] then [d] else DATASETS
                              | None \<Rightarrow> DATASETS)"
  shows "\<exists>c0. clear_sync_state conn dataset = (c0, Inr ())
           \<and> acordaos c0 = acordaos conn \<and> requests c0 = requests conn \<and> files c0 = files conn
           \<and> (\<forall>ds\<in>set datasets. \<forall>r. (ds, r) \<notin> markers c0)"
proof (cases "\<exists>d. dataset = Some d \<and> d \<noteq> []")
  case True
  then obtain d where d: "dataset = Some d" "d \<noteq> []" by blast
  let ?c0 = "conn\<lparr>sync_state := filter (\<lambda>(d', r, n). d' \<noteq> d) (sync_state conn)\<rparr>"
  have "clear_sync_state conn dataset = (?c0, Inr ())"
    using t d by (simp add: clear_sync_state_def)
  moreover have "(d, r) \<notin> markers ?c0" for r
    by (auto simp: markers_def)
  moreover have "datasets = [d]"
    using d scope by simp
  ultimately show ?thesis by simp
next
  case False
  let ?c0 = "conn\<lparr>sync_state := []\<rparr>"
  have "clear_sync_state conn dataset = (?c0, Inr ())"
    using t False by (cases dataset) (auto simp: clear_sync_state_def)
  moreover have "(ds, r) \<notin> markers ?c0" for ds r
    by (simp add: markers_def)
  ultimately show ?thesis by simp
qed

lemma marked_passed_over:
  assumes wf: "well_formed force res" and dr: "is_data_resource res = Inr True"
      and m: "res_marked c ds res"
  shows "passed_over W ds False res post c t"
proof -
  from wf obtain rid url where
    k: "map_of res ''id'' = Some rid" "map_of res ''url'' = Some url"
    by (auto simp: well_formed_def split: option.splits)
  from is_data_resource_format [OF dr] obtain fmt where
    f: "py_upper (dict_get res ''format'' (PStr [])) = Inr fmt" by blast
  from m k have "is_synced c ds rid = Inr True" by (simp add: res_marked_def)
  then show ?thesis
    unfolding passed_over_def by (intro sync_resources_skip [OF k(1) f k(2)]) simp_all
qed

text \<open>
  C9. Force semantics of the command \<open>sync --force\<close>, for a known dataset or for all of
  them, in a run in which the listing of every dataset of the scope is obtained and every
  data resource has the keys \<open>id\<close> and \<open>url\<close>.

  On a database that has its tables: the markers of the scope are deleted before the run, so
  that no resource of the scope is marked any more, and no record is deleted with them; the
  command returns; every data resource of every dataset of the scope is attempted at its
  turn, a JSON resource and a ZIP resource alike, whether or not it is marked then, where
  without \<open>force\<close> a marked resource is passed over: its URL is requested, and when its
  body raises nothing its records are in the store at the end and it is marked again.

  On a database that has no tables yet, the one a first use starts from, the deletion of
  the markers raises \<open>OperationalError\<close> before \<open>init_db\<close> has run: the command ends there,
  with nothing requested and nothing written.
\<close>

theorem force_semantics:
  assumes scope: "datasets = (case dataset of
                                Some d \<Rightarrow> if d \<noteq> [] then [d] else DATASETS
                              | None \<Rightarrow> DATASETS)"
      and known: "set datasets \<subseteq> set DATASETS"
      and listings:
        "\<forall>ds\<in>set datasets. \<forall>c. \<exists>c1. get_dataset_resources W ds c = (c1, Inr (catalogue ds))"
      and data: "\<forall>ds\<in>set datasets. filter_data_resources (catalogue ds) = Inr (data ds)"
      and keys: "\<forall>ds\<in>set datasets. \<forall>res\<in>set (data ds). well_formed True res"
  shows "if tables conn
         then \<exists>c0 c'.
                clear_sync_state conn dataset = (c0, Inr ())
              \<and> (\<forall>ds\<in>set datasets. \<forall>res_id. is_synced c0 ds res_id \<noteq> Inr True)
              \<and> acordaos c0 = acordaos conn
              \<and> sync W conn dataset True = (c', Inr ())
              \<and> (\<forall>dpre ds dpost pre res post.
                    datasets = dpre @ ds # dpost \<and> data ds = pre @ res # post \<longrightarrow>
                    (\<exists>ca ta cb c1 t1.
                       sync_datasets W True dpre (init_db c0) 0 = (ca, Inr ta)
                     \<and> get_dataset_resources W ds ca = (cb, Inr (catalogue ds))
                     \<and> sync_resources W ds True pre cb 0 = (c1, Inr t1)
                     \<and> attempted W ds True res post c1 t1 c'
                     \<and> (res_marked c1 ds res \<longrightarrow> passed_over W ds False res post c1 t1)))
         else sync W conn dataset True = (conn, Inl OperationalError)"
proof (cases "tables conn")
  case False
  have "\<not> (case dataset of Some d \<Rightarrow> d \<noteq> [] \<and> d \<notin> set DATASETS | None \<Rightarrow> False)"
    using scope known by (cases dataset) (auto split: if_splits)
  with False have "sync W conn dataset True = (conn, Inl OperationalError)"
    by (simp add: sync_def clear_sync_state_def)
  with False show ?thesis by simp
next
  case True
  from clear_sync_state_scope [OF True scope] obtain c0 where
    clr: "clear_sync_state conn dataset = (c0, Inr ())" and
    rows: "acordaos c0 = acordaos conn" and
    none: "\<forall>ds\<in>set datasets. \<forall>r. (ds, r) \<notin> markers c0"
    by blast
  have cleared: "\<forall>ds\<in>set datasets. \<forall>res_id. is_synced c0 ds res_id \<noteq> Inr True"
    using none by (auto simp: is_synced_markers)
  from sync_datasets_isolation [OF listings data keys, of "init_db c0" 0]
  obtain c' total_records where
    run: "sync_datasets W True datasets (init_db c0) 0 = (c', Inr total_records)" and
    turns: "\<forall>dpre ds dpost pre res post.
                 datasets = dpre @ ds # dpost \<and> data ds = pre @ res # post \<longrightarrow>
                 (\<exists>ca ta cb c1 t1.
                    sync_datasets W True dpre (init_db c0) 0 = (ca, Inr ta)
                  \<and> get_dataset_resources W ds ca = (cb, Inr (catalogue ds))
                  \<and> sync_resources W ds True pre cb 0 = (c1, Inr t1)
                  \<and> attempted W ds True res post c1 t1 c')"
    by auto
  have all: "sync_all W c0 dataset True = (c', Inr total_records)"
    using run by (simp add: sync_all_def scope)
  have "\<not> (case dataset of Some d \<Rightarrow> d \<noteq> [] \<and> d \<notin> set DATASETS | None \<Rightarrow> False)"
    using scope known by (cases dataset) (auto split: if_splits)
  then have cmd: "sync W conn dataset True = (c', Inr ())"
    using clr all by (simp add: sync_def)
  have each: "\<exists>ca ta cb c1 t1.
                       sync_datasets W True dpre (init_db c0) 0 = (ca, Inr ta)
                     \<and> get_dataset_resources W ds ca = (cb, Inr (catalogue ds))
                     \<and> sync_resources W ds True pre cb 0 = (c1, Inr t1)
                     \<and> attempted W ds True res post c1 t1 c'
                     \<and> (res_marked c1 ds res \<longrightarrow> passed_over W ds False res post c1 t1)"
    if split: "datasets = dpre @ ds # dpost" and pos: "data ds = pre @ res # post"
    for dpre ds dpost pre res post
  proof -
    from split have ds: "ds \<in> set datasets" by simp
    with pos keys have wf: "well_formed True res" by auto
    from ds data have "filter_data_resources (catalogue ds) = Inr (data ds)" by simp
    from filter_data_resources_set [OF this] pos have dr: "is_data_resource res = Inr True"
      by simp
    from turns split pos obtain ca ta cb c1 t1 where
      a: "sync_datasets W True dpre (init_db c0) 0 = (ca, Inr ta)"
         "get_dataset_resources W ds ca = (cb, Inr (catalogue ds))"
         "sync_resources W ds True pre cb 0 = (c1, Inr t1)"
         "attempted W ds True res post c1 t1 c'"
      by blast
    have "res_marked c1 ds res \<longrightarrow> passed_over W ds False res post c1 t1"
      using marked_passed_over [OF wf dr] by blast
    with a show ?thesis by blast
  qed
  from clr cleared rows cmd each have
    "\<exists>c0 c'.
                clear_sync_state conn dataset = (c0, Inr ())
              \<and> (\<forall>ds\<in>set datasets. \<forall>res_id. is_synced c0 ds res_id \<noteq> Inr True)
              \<and> acordaos c0 = acordaos conn
              \<and> sync W conn dataset True = (c', Inr ())
              \<and> (\<forall>dpre ds dpost pre res post.
                    datasets = dpre @ ds # dpost \<and> data ds = pre @ res # post \<longrightarrow>
                    (\<exists>ca ta cb c1 t1.
                       sync_datasets W True dpre (init_db c0) 0 = (ca, Inr ta)
                     \<and> get_dataset_resources W ds ca = (cb, Inr (catalogue ds))
                     \<and> sync_resources W ds True pre cb 0 = (c1, Inr t1)
                     \<and> attempted W ds True res post c1 t1 c'
                     \<and> (res_marked c1 ds res \<longrightarrow> passed_over W ds False res post c1 t1)))"
    by blast
  with True show ?thesis by (simp only: if_True)
qed

theorem force_semantics_witness:
  "is_synced (marked ''espelhos-de-acordaos-primeira-secao'')
      ''espelhos-de-acordaos-primeira-secao'' (PStr ''r2'') = Inr True
   \<and> (\<exists>c'. sync (world_of null_id_answer) (marked ''espelhos-de-acordaos-primeira-secao'')
             (Some ''espelhos-de-acordaos-primeira-secao'') True = (c', Inr ()))
   \<and> (case sync (world_of null_id_answer) (marked ''espelhos-de-acordaos-primeira-secao'')
             (Some ''espelhos-de-acordaos-primeira-secao'') True of
         (c', r) \<Rightarrow>
           requests c' = [PackageShow ''espelhos-de-acordaos-primeira-secao'', Get ''u1'', Get ''u2'']
           \<and> map acordao_id (acordaos c') = [''1'', ''2'']
           \<and> sync_state c' = [(''espelhos-de-acordaos-primeira-secao'', ''r2'', PStr ''r2.zip'')])
   \<and> (case sync (world_of null_id_answer) (marked ''espelhos-de-acordaos-primeira-secao'')
             (Some ''espelhos-de-acordaos-primeira-secao'') False of
         (c', r) \<Rightarrow>
           requests c' = [PackageShow ''espelhos-de-acordaos-primeira-secao'', Get ''u1'']
           \<and> map acordao_id (acordaos c') = [''1''])
   \<and> sync (world_of null_id_answer) new_database (Some ''espelhos-de-acordaos-primeira-secao'') True
        = (new_database, Inl OperationalError)
   \<and> snd (sync (world_of null_id_answer) new_database
             (Some ''espelhos-de-acordaos-primeira-secao'') False) = Inr ()"
proof -
  let ?W = "world_of null_id_answer"
  let ?ds = "''espelhos-de-acordaos-primeira-secao''"
  let ?rs = "[null_id_resource ''u1'', zip_resource ''r2'' ''u2'']"
  have scope: "[?ds] = (case Some ?ds of
                          Some d \<Rightarrow> if d \<noteq> [] then [d] else DATASETS
                        | None \<Rightarrow> DATASETS)"
    by simp
  have known: "set [?ds] \<subseteq> set DATASETS"
    by (simp add: DATASETS_def)
  have listings:
    "\<forall>ds\<in>set [?ds]. \<forall>c. \<exists>c1. get_dataset_resources ?W ds c = (c1, Inr ((\<lambda>d. ?rs) ds))"
    by (simp add: get_dataset_resources_def request_with_retry_def MAX_RETRIES_def
          numeral_3_eq_3 world_of_def)
  have data: "\<forall>ds\<in>set [?ds]. filter_data_resources ((\<lambda>d. ?rs) ds) = Inr ((\<lambda>d. ?rs) ds)"
    by (simp add: run_defs)
  have keys: "\<forall>ds\<in>set [?ds]. \<forall>res\<in>set ((\<lambda>d. ?rs) ds). well_formed True res"
    by (simp add: well_formed_def null_id_resource_def zip_resource_def)
  have t: "tables (marked ?ds)" "\<not> tables new_database"
    by (simp_all add: marked_def new_database_def)
  from force_semantics [OF scope known listings data keys, of "marked ?ds"] t(1)
  have a: "\<exists>c'. sync ?W (marked ?ds) (Some ?ds) True = (c', Inr ())"
    by (simp only: if_True) blast
  from force_semantics [OF scope known listings data keys, of new_database] t(2)
  have b: "sync ?W new_database (Some ?ds) True = (new_database, Inl OperationalError)"
    by (simp only: if_False)
  have m: "is_synced (marked ?ds) ?ds (PStr ''r2'') = Inr True"
    by (simp add: is_synced_def marked_def)
  have c: "case sync ?W (marked ?ds) (Some ?ds) True of
         (c', r) \<Rightarrow>
           requests c' = [PackageShow ?ds, Get ''u1'', Get ''u2'']
           \<and> map acordao_id (acordaos c') = [''1'', ''2'']
           \<and> sync_state c' = [(?ds, ''r2'', PStr ''r2.zip'')]"
    by (simp add: sync_def sync_all_def DATASETS_def clear_sync_state_def run_defs)
  have d: "case sync ?W (marked ?ds) (Some ?ds) False of
         (c', r) \<Rightarrow>
           requests c' = [PackageShow ?ds, Get ''u1'']
           \<and> map acordao_id (acordaos c') = [''1'']"
    by (simp add: sync_def sync_all_def DATASETS_def clear_sync_state_def run_defs)
  have e: "snd (sync ?W new_database (Some ?ds) False) = Inr ()"
    by (simp add: sync_def sync_all_def DATASETS_def run_defs)
  from m a c d b e show ?thesis by (intro conjI)
qed

end
